theory Spec2Isabelle
  imports Complex_Main "HOL-Library.Monad_Syntax"
begin

section \<open>Floating-point values\<close>

text \<open>
  The matrices, the noise variance and the objective of \<^verbatim>\<open>bd.py\<close> hold IEEE doubles. A
  finite double is modelled by the real number it denotes (rounding, overflow and the sign
  of zero are not modelled); the two infinities and NaN are values of their own, because
  the sampler tests for them. No theorem below uses a law of arithmetic on these values.
\<close>

datatype fl = Fin real | PInf | NInf | NaN

fun isnan :: "fl \<Rightarrow> bool" where
  "isnan NaN = True"
| "isnan _ = False"

fun isinf :: "fl \<Rightarrow> bool" where
  "isinf PInf = True"
| "isinf NInf = True"
| "isinf _ = False"

fun fl_neg :: "fl \<Rightarrow> fl" where
  "fl_neg (Fin a) = Fin (- a)"
| "fl_neg PInf = NInf"
| "fl_neg NInf = PInf"
| "fl_neg NaN = NaN"

fun fl_add :: "fl \<Rightarrow> fl \<Rightarrow> fl" where
  "fl_add NaN _ = NaN"
| "fl_add _ NaN = NaN"
| "fl_add (Fin a) (Fin b) = Fin (a + b)"
| "fl_add PInf NInf = NaN"
| "fl_add NInf PInf = NaN"
| "fl_add PInf _ = PInf"
| "fl_add NInf _ = NInf"
| "fl_add _ PInf = PInf"
| "fl_add _ NInf = NInf"

fun fl_sgn_inf :: "bool \<Rightarrow> fl" where
  "fl_sgn_inf True = PInf"
| "fl_sgn_inf False = NInf"

fun fl_mul :: "fl \<Rightarrow> fl \<Rightarrow> fl" where
  "fl_mul NaN _ = NaN"
| "fl_mul _ NaN = NaN"
| "fl_mul (Fin a) (Fin b) = Fin (a * b)"
| "fl_mul (Fin a) PInf = (if a = 0 then NaN else fl_sgn_inf (0 < a))"
| "fl_mul (Fin a) NInf = (if a = 0 then NaN else fl_sgn_inf (a < 0))"
| "fl_mul PInf (Fin b) = (if b = 0 then NaN else fl_sgn_inf (0 < b))"
| "fl_mul NInf (Fin b) = (if b = 0 then NaN else fl_sgn_inf (b < 0))"
| "fl_mul PInf PInf = PInf"
| "fl_mul NInf NInf = PInf"
| "fl_mul PInf NInf = NInf"
| "fl_mul NInf PInf = NInf"

fun fl_div :: "fl \<Rightarrow> fl \<Rightarrow> fl" where
  "fl_div NaN _ = NaN"
| "fl_div _ NaN = NaN"
| "fl_div (Fin a) (Fin b) =
     (if b = 0 then (if a = 0 then NaN else fl_sgn_inf (0 < a)) else Fin (a / b))"
| "fl_div (Fin a) _ = Fin 0"
| "fl_div PInf (Fin b) = fl_sgn_inf (0 \<le> b)"
| "fl_div NInf (Fin b) = fl_sgn_inf (b < 0)"
| "fl_div _ _ = NaN"

fun fl_abs :: "fl \<Rightarrow> fl" where
  "fl_abs (Fin a) = Fin \<bar>a\<bar>"
| "fl_abs PInf = PInf"
| "fl_abs NInf = PInf"
| "fl_abs NaN = NaN"

fun fl_le :: "fl \<Rightarrow> fl \<Rightarrow> bool" where
  "fl_le NaN _ = False"
| "fl_le _ NaN = False"
| "fl_le (Fin a) (Fin b) = (a \<le> b)"
| "fl_le NInf _ = True"
| "fl_le _ PInf = True"
| "fl_le _ _ = False"

fun fl_lt :: "fl \<Rightarrow> fl \<Rightarrow> bool" where
  "fl_lt NaN _ = False"
| "fl_lt _ NaN = False"
| "fl_lt (Fin a) (Fin b) = (a < b)"
| "fl_lt PInf _ = False"
| "fl_lt _ NInf = False"
| "fl_lt _ _ = True"

instantiation fl :: "{zero, one, plus, minus, uminus, times, inverse, abs, ord}"
begin

definition zero_fl :: fl where "zero_fl = Fin 0"
definition one_fl :: fl where "one_fl = Fin 1"
definition plus_fl :: "fl \<Rightarrow> fl \<Rightarrow> fl" where "plus_fl = fl_add"
definition uminus_fl :: "fl \<Rightarrow> fl" where "uminus_fl = fl_neg"
definition minus_fl :: "fl \<Rightarrow> fl \<Rightarrow> fl" where "minus_fl a b = fl_add a (fl_neg b)"
definition times_fl :: "fl \<Rightarrow> fl \<Rightarrow> fl" where "times_fl = fl_mul"
definition divide_fl :: "fl \<Rightarrow> fl \<Rightarrow> fl" where "divide_fl = fl_div"
definition inverse_fl :: "fl \<Rightarrow> fl" where "inverse_fl a = fl_div (Fin 1) a"
definition abs_fl :: "fl \<Rightarrow> fl" where "abs_fl = fl_abs"
definition less_eq_fl :: "fl \<Rightarrow> fl \<Rightarrow> bool" where "less_eq_fl = fl_le"
definition less_fl :: "fl \<Rightarrow> fl \<Rightarrow> bool" where "less_fl = fl_lt"

instance ..

end

lemmas fl_arith =
  zero_fl_def one_fl_def plus_fl_def uminus_fl_def minus_fl_def times_fl_def divide_fl_def
  abs_fl_def less_eq_fl_def less_fl_def

text \<open>\<^verbatim>\<open>sqrt\<close> and \<^verbatim>\<open>log\<close> of numpy, on the same values.\<close>

fun fl_sqrt :: "fl \<Rightarrow> fl" where
  "fl_sqrt (Fin a) = (if a < 0 then NaN else Fin (sqrt a))"
| "fl_sqrt PInf = PInf"
| "fl_sqrt NInf = NaN"
| "fl_sqrt NaN = NaN"

fun fl_log :: "fl \<Rightarrow> fl" where
  "fl_log (Fin a) = (if a < 0 then NaN else if a = 0 then NInf else Fin (ln a))"
| "fl_log PInf = PInf"
| "fl_log NInf = NaN"
| "fl_log NaN = NaN"

text \<open>Python's truth value of an optional number: \<^verbatim>\<open>None\<close> and zero are false.\<close>

definition truthy_int :: "int option \<Rightarrow> bool" where
  "truthy_int x = (case x of None \<Rightarrow> False | Some n \<Rightarrow> n \<noteq> 0)"

definition truthy_fl :: "fl option \<Rightarrow> bool" where
  "truthy_fl x = (case x of None \<Rightarrow> False | Some a \<Rightarrow> a \<noteq> Fin 0)"

section \<open>Configuration\<close>

type_synonym vec = "fl list"
type_synonym mat = "fl list list"

text \<open>A matrix is the list of its rows; \<^verbatim>\<open>shape[0]\<close> and \<^verbatim>\<open>shape[1]\<close>:\<close>

definition nrows :: "mat \<Rightarrow> nat" where
  "nrows M = length M"

definition ncols :: "mat \<Rightarrow> nat" where
  "ncols M = (case M of [] \<Rightarrow> 0 | r # _ \<Rightarrow> length r)"

definition zeros :: "nat \<Rightarrow> nat \<Rightarrow> mat" where
  "zeros r c = replicate r (replicate c (Fin 0))"

text \<open>
  The keyword options of \<^verbatim>\<open>Bd.__init__\<close> that \<^verbatim>\<open>_set_params\<close> reads with
  \<^verbatim>\<open>self.options.get\<close>: \<open>None\<close> is an absent key.
\<close>

record options =
  opt_alpha :: "mat option"
  opt_beta :: "mat option"
  opt_theta :: "fl option"
  opt_k :: "fl option"
  opt_sigma :: "fl option"
  opt_skip :: "int option"
  opt_stride :: "int option"
  opt_n_w :: "bool list option"
  opt_n_h :: "bool list option"
  opt_n_sigma :: "bool option"
  opt_track :: "bool option"

text \<open>The attributes of \<^verbatim>\<open>self\<close> that the base class has set when \<^verbatim>\<open>factorize\<close> starts.\<close>

record job =
  V :: mat
  rank :: nat
  n_run :: nat
  max_iter :: "int option"
  min_residuals :: "fl option"
  test_conv :: "int option"
  options :: options

text \<open>\<^verbatim>\<open>self\<close> after \<^verbatim>\<open>_set_params\<close>; \<open>sigma\<close> is the initial noise variance.\<close>

record params = job +
  alpha :: mat
  beta :: mat
  theta :: fl
  k :: fl
  sigma :: fl
  skip :: int
  stride :: int
  n_w :: "bool list"
  n_h :: "bool list"
  n_sigma :: bool
  track :: bool

definition get_or :: "'a option \<Rightarrow> 'a \<Rightarrow> 'a" where
  "get_or x d = (case x of None \<Rightarrow> d | Some v \<Rightarrow> v)"

definition set_params :: "job \<Rightarrow> params" where
  "set_params j =
     \<lparr> V = V j, rank = rank j, n_run = n_run j,
       max_iter = (if \<not> truthy_int (max_iter j) then Some 30 else max_iter j),
       min_residuals = min_residuals j, test_conv = test_conv j, options = options j,
       alpha = get_or (opt_alpha (options j)) (zeros (nrows (V j)) (rank j)),
       beta = get_or (opt_beta (options j)) (zeros (rank j) (ncols (V j))),
       theta = get_or (opt_theta (options j)) (Fin 0),
       k = get_or (opt_k (options j)) (Fin 0),
       sigma = get_or (opt_sigma (options j)) (Fin 1),
       skip = get_or (opt_skip (options j)) 100,
       stride = get_or (opt_stride (options j)) 1,
       n_w = get_or (opt_n_w (options j)) (replicate (rank j) False),
       n_h = get_or (opt_n_h (options j)) (replicate (rank j) False),
       n_sigma = get_or (opt_n_sigma (options j)) False,
       track = (get_or (opt_track (options j)) False \<and> 1 < n_run j) \<rparr>"

section \<open>Stopping criterion\<close>

text \<open>\<^verbatim>\<open>_is_satisfied\<close>: \<open>True\<close> keeps the sampling loop running.\<close>

definition is_satisfied :: "params \<Rightarrow> fl \<Rightarrow> fl \<Rightarrow> int \<Rightarrow> bool" where
  "is_satisfied p pobj cobj iter =
     (if truthy_int (max_iter p) \<and> the (max_iter p) < iter then False
      else if truthy_fl (min_residuals p) \<and> 0 < iter \<and> cobj - pobj \<le> the (min_residuals p)
        then False
      else if 0 < iter \<and> cobj \<ge> pobj then False
      else True)"

section \<open>Numeric substrate\<close>

text \<open>
  Modelled from the spec: \<^verbatim>\<open>utils.linalg\<close> (\<^verbatim>\<open>dot\<close>, \<^verbatim>\<open>multiply\<close>, \<^verbatim>\<open>sop\<close> and the matrix
  classes behind them) is not among the sources. The spec takes "general sparse/dense matrix
  storage and elementwise-operator infrastructure" as given, with \<open>C = H H\<^sup>T\<close>, \<open>D = V H\<^sup>T\<close>,
  \<open>E = W\<^sup>T W\<close>, \<open>F = W\<^sup>T V\<close> and the elementwise-product sum. The functions below are
  those operations on lists of rows, for operands of conforming shapes.
\<close>

definition vsum :: "vec \<Rightarrow> fl" where
  "vsum xs = foldl (+) (Fin 0) xs"

definition dotv :: "vec \<Rightarrow> vec \<Rightarrow> fl" where
  "dotv x y = vsum (map2 (*) x y)"

definition column :: "mat \<Rightarrow> nat \<Rightarrow> vec" where
  "column M j = map (\<lambda>r. r ! j) M"

definition tr :: "mat \<Rightarrow> mat" where
  "tr M = map (column M) [0..<ncols M]"

definition dot :: "mat \<Rightarrow> mat \<Rightarrow> mat" where
  "dot A B = map (\<lambda>r. map (\<lambda>j. dotv r (column B j)) [0..<ncols B]) A"

definition dot_mv :: "mat \<Rightarrow> vec \<Rightarrow> vec" where
  "dot_mv A x = map (\<lambda>r. dotv r x) A"

definition dot_vm :: "vec \<Rightarrow> mat \<Rightarrow> vec" where
  "dot_vm x B = map (\<lambda>j. dotv x (column B j)) [0..<ncols B]"

definition multiply :: "mat \<Rightarrow> mat \<Rightarrow> mat" where
  "multiply A B = map2 (map2 (*)) A B"

definition msub :: "mat \<Rightarrow> mat \<Rightarrow> mat" where
  "msub A B = map2 (map2 (-)) A B"

definition mscale :: "fl \<Rightarrow> mat \<Rightarrow> mat" where
  "mscale c A = map (map (\<lambda>x. c * x)) A"

definition msum :: "mat \<Rightarrow> fl" where
  "msum A = vsum (map vsum A)"

definition vsub :: "vec \<Rightarrow> vec \<Rightarrow> vec" where
  "vsub x y = map2 (-) x y"

text \<open>\<^verbatim>\<open>sop(x, c, div)\<close> and \<^verbatim>\<open>sop(X, 2, pow)\<close>: a scalar operand applied to every entry.\<close>

definition sop_div :: "vec \<Rightarrow> fl \<Rightarrow> vec" where
  "sop_div x c = map (\<lambda>a. a / c) x"

definition sop_pow2 :: "mat \<Rightarrow> mat" where
  "sop_pow2 A = map (map (\<lambda>a. a * a)) A"

text \<open>The index expressions \<^verbatim>\<open>M[:, nn]\<close>, \<^verbatim>\<open>M[nn, n]\<close>, \<^verbatim>\<open>M[n, nn]\<close>, \<^verbatim>\<open>M[nn, :]\<close> for an index list.\<close>

definition cols_of :: "mat \<Rightarrow> nat list \<Rightarrow> mat" where
  "cols_of M nn = map (\<lambda>r. map (\<lambda>c. r ! c) nn) M"

definition rows_of :: "mat \<Rightarrow> nat list \<Rightarrow> mat" where
  "rows_of M nn = map (\<lambda>i. M ! i) nn"

definition col_at :: "mat \<Rightarrow> nat list \<Rightarrow> nat \<Rightarrow> vec" where
  "col_at M nn n = map (\<lambda>i. M ! i ! n) nn"

definition row_at :: "mat \<Rightarrow> nat \<Rightarrow> nat list \<Rightarrow> vec" where
  "row_at M n nn = map (\<lambda>c. M ! n ! c) nn"

section \<open>Checked accesses\<close>

text \<open>
  A Python exception is the result \<open>None\<close>. The freeze masks and the priors come from the
  caller unchecked, and the sampled vector is written back cell by cell, so these reads and
  writes are the ones that can leave the range.
\<close>

definition idx :: "'a list \<Rightarrow> nat \<Rightarrow> 'a option" where
  "idx xs i = (if i < length xs then Some (xs ! i) else None)"

definition getcol :: "mat \<Rightarrow> nat \<Rightarrow> vec option" where
  "getcol M n = (if list_all (\<lambda>r. n < length r) M then Some (column M n) else None)"

definition getrow :: "mat \<Rightarrow> nat \<Rightarrow> vec option" where
  "getrow M n = idx M n"

definition set_cell :: "mat \<Rightarrow> nat \<Rightarrow> nat \<Rightarrow> fl \<Rightarrow> mat option" where
  "set_cell M i j v =
     (if i < length M \<and> j < length (M ! i) then Some (M[i := (M ! i)[j := v]]) else None)"

text \<open>\<^verbatim>\<open>for j in xrange(self.W.shape[0]): self.W[j, n] = temp[j]\<close>, over the list of \<open>j\<close>.\<close>

primrec write_col :: "nat \<Rightarrow> vec \<Rightarrow> nat list \<Rightarrow> mat \<Rightarrow> mat option" where
  "write_col n temp [] M = Some M"
| "write_col n temp (j # js) M =
     do { t \<leftarrow> idx temp j; M' \<leftarrow> set_cell M j n t; write_col n temp js M' }"

text \<open>\<^verbatim>\<open>for j in xrange(self.H.shape[1]): self.H[n, j] = temp[j]\<close>.\<close>

primrec write_row :: "nat \<Rightarrow> vec \<Rightarrow> nat list \<Rightarrow> mat \<Rightarrow> mat option" where
  "write_row n temp [] M = Some M"
| "write_row n temp (j # js) M =
     do { t \<leftarrow> idx temp j; M' \<leftarrow> set_cell M n j t; write_row n temp js M' }"

section \<open>External collaborators\<close>

text \<open>
  The library functions the sampler calls and the seeder are parameters. \<open>'g\<close> is the state
  of numpy's global random source: \<open>uniform\<close> is one draw of \<^verbatim>\<open>np.random.rand\<close>, \<open>gamma\<close> is
  \<^verbatim>\<open>np.random.gamma(shape, scale)\<close> (\<open>None\<close> when it raises on its arguments), \<open>erfc\<close> and
  \<open>erfcinv\<close> are those of \<^verbatim>\<open>scipy.special\<close>, and \<open>initialize\<close> is \<^verbatim>\<open>self.seed.initialize\<close>.
\<close>

record 'g env =
  erfc :: "fl \<Rightarrow> fl"
  erfcinv :: "fl \<Rightarrow> fl"
  uniform :: "'g \<Rightarrow> fl \<times> 'g"
  gamma :: "'g \<Rightarrow> fl \<Rightarrow> fl \<Rightarrow> (fl \<times> 'g) option"
  initialize :: "'g \<Rightarrow> mat \<Rightarrow> nat \<Rightarrow> options \<Rightarrow> (mat \<times> mat) \<times> 'g"

text \<open>\<^verbatim>\<open>np.random.rand(d0, d1)\<close> fills its array draw by draw.\<close>

primrec rand_n :: "'g env \<Rightarrow> 'g \<Rightarrow> nat \<Rightarrow> vec \<times> 'g" where
  "rand_n e g 0 = ([], g)"
| "rand_n e g (Suc n) =
     (let (u, g1) = uniform e g; (us, g2) = rand_n e g1 n in (u # us, g2))"

section \<open>Rectified-Gaussian sampler\<close>

text \<open>Boolean-mask indexing: \<^verbatim>\<open>x[a]\<close> as a value, and the assignment \<^verbatim>\<open>x[a] = vs\<close>.\<close>

fun sel :: "bool list \<Rightarrow> 'a list \<Rightarrow> 'a list" where
  "sel (b # bs) (x # xs) = (if b then x # sel bs xs else sel bs xs)"
| "sel _ _ = []"

fun put :: "bool list \<Rightarrow> 'a list \<Rightarrow> 'a list \<Rightarrow> 'a list" where
  "put (True # bs) (x # xs) (v # vs) = v # put bs xs vs"
| "put (False # bs) (x # xs) vs = x # put bs xs vs"
| "put _ xs _ = xs"

text \<open>A boolean array as a factor: \<^verbatim>\<open>(A[a] < 0) * (...)\<close>.\<close>

definition b2f :: "bool \<Rightarrow> fl" where
  "b2f b = (if b then Fin 1 else Fin 0)"

definition vadd :: "vec \<Rightarrow> vec \<Rightarrow> vec" where
  "vadd x y = map2 (+) x y"

definition vmul :: "vec \<Rightarrow> vec \<Rightarrow> vec" where
  "vmul x y = map2 (*) x y"

definition vdiv :: "vec \<Rightarrow> vec \<Rightarrow> vec" where
  "vdiv x y = map2 (/) x y"

text \<open>
  Lines 162 to 169 of \<^verbatim>\<open>_randr\<close>, for the uniform draws \<open>y\<close>: the candidate values before
  the clean-up. \<open>m\<close> and \<open>l\<close> are vectors of one length.
\<close>

definition randr_draw :: "'g env \<Rightarrow> vec \<Rightarrow> fl \<Rightarrow> vec \<Rightarrow> vec \<Rightarrow> vec" where
  "randr_draw e m s l y =
     (let A = map (\<lambda>t. t / fl_sqrt (Fin 2 * s)) (vsub (map (\<lambda>li. li * s) l) m);
          a = map (\<lambda>Ai. Ai > Fin 26) A;
          x = replicate (length m) (Fin 0);
          x = put a x
                (vdiv (map (\<lambda>u. - fl_log u) (sel a y))
                      (map (\<lambda>t. t / s) (vsub (map (\<lambda>li. li * s) (sel a l)) (sel a m))));
          a = map Not a;
          R = map (\<lambda>Ai. erfc e (abs Ai)) (sel a A);
          x = put a x
                (vsub
                  (vadd
                    (map (\<lambda>t. erfcinv e t * fl_sqrt (Fin 2 * s))
                      (vsub (vmul (sel a y) R)
                            (vmul (map (\<lambda>Ai. b2f (Ai < Fin 0)) (sel a A))
                                  (map (\<lambda>t. t - Fin 2)
                                     (vadd (map (\<lambda>u. Fin 2 * u) (sel a y)) R)))))
                    (sel a m))
                  (map (\<lambda>li. li * s) (sel a l)))
      in x)"

text \<open>Lines 170 to 172: three masked assignments of 0, in this order.\<close>

definition clean :: "vec \<Rightarrow> vec" where
  "clean x =
     (let x = map (\<lambda>v. if isnan v then Fin 0 else v) x;
          x = map (\<lambda>v. if v < Fin 0 then Fin 0 else v) x;
          x = map (\<lambda>v. if isinf v then Fin 0 else v) x
      in x)"

text \<open>
  \<^verbatim>\<open>_randr\<close>. Operands of different lengths end in \<open>None\<close>; numpy's broadcasting of an
  operand of length one is not modelled.
\<close>

definition randr :: "'g env \<Rightarrow> 'g \<Rightarrow> vec \<Rightarrow> fl \<Rightarrow> vec \<Rightarrow> (vec \<times> 'g) option" where
  "randr e g m s l =
     (if length l = length m
      then (let (y, g') = rand_n e g (length m) in Some (clean (randr_draw e m s l y), g'))
      else None)"

text \<open>
  The two formulas of the sampler for one entry, as the specification words them: the
  standardized tilt, the exponential-tail draw and the inverse-CDF draw.
\<close>

definition tilt :: "fl \<Rightarrow> fl \<Rightarrow> fl \<Rightarrow> fl" where
  "tilt m s l = (l * s - m) / fl_sqrt (Fin 2 * s)"

definition tail_draw :: "fl \<Rightarrow> fl \<Rightarrow> fl \<Rightarrow> fl \<Rightarrow> fl" where
  "tail_draw u m s l = (- fl_log u) / ((l * s - m) / s)"

definition exact_draw :: "'g env \<Rightarrow> fl \<Rightarrow> fl \<Rightarrow> fl \<Rightarrow> fl \<Rightarrow> fl" where
  "exact_draw e u m s l =
     (let A = tilt m s l; R = erfc e (abs A)
      in erfcinv e (u * R - b2f (A < Fin 0) * (Fin 2 * u + R - Fin 2)) * fl_sqrt (Fin 2 * s)
           + m - l * s)"

section \<open>Gibbs update step\<close>

text \<open>
  The part of \<^verbatim>\<open>self\<close> that a run mutates: the two factors, the noise variance and the random
  source. \<open>sweeps\<close> is a ghost counter of the sweeps executed; the code has no such field.
\<close>

record 'g chain =
  W :: mat
  H :: mat
  sigma_cur :: fl
  rng :: 'g
  sweeps :: nat

text \<open>
  \<^verbatim>\<open>nn = list(xrange(n - 1)) + list(xrange(n, self.rank))\<close>; for \<open>n = 0\<close> the first range is
  \<^verbatim>\<open>xrange(-1)\<close>, which is empty, as is \<open>[0..<0 - 1]\<close> on natural numbers.
\<close>

definition nn_idx :: "nat \<Rightarrow> nat \<Rightarrow> nat list" where
  "nn_idx n r = [0..<n - 1] @ [n..<r]"

text \<open>The first argument of \<^verbatim>\<open>_randr\<close> on lines 140 and 153.\<close>

definition w_mean :: "mat \<Rightarrow> mat \<Rightarrow> mat \<Rightarrow> nat list \<Rightarrow> nat \<Rightarrow> vec" where
  "w_mean Wm C D nn n =
     sop_div (vsub (column D n) (dot_mv (cols_of Wm nn) (col_at C nn n))) (C ! n ! n)"

definition h_mean :: "mat \<Rightarrow> mat \<Rightarrow> mat \<Rightarrow> nat list \<Rightarrow> nat \<Rightarrow> vec" where
  "h_mean Hm E F nn n =
     sop_div (vsub (F ! n) (dot_vm (row_at E n nn) (rows_of Hm nn))) (E ! n ! n)"

text \<open>The body of the loop over the columns of \<open>W\<close>, lines 138 to 142.\<close>

definition w_step :: "'g env \<Rightarrow> params \<Rightarrow> mat \<Rightarrow> mat \<Rightarrow> nat \<Rightarrow> 'g chain \<Rightarrow> 'g chain option" where
  "w_step e p C D n st =
     do { frozen \<leftarrow> idx (n_w p) n;
          if \<not> frozen then
            do { let nn = nn_idx n (rank p);
                 l \<leftarrow> getcol (alpha p) n;
                 (temp, g') \<leftarrow> randr e (rng st) (w_mean (W st) C D nn n)
                                  (sigma_cur st / (C ! n ! n)) l;
                 W' \<leftarrow> write_col n temp [0..<nrows (W st)] (W st);
                 Some (st\<lparr>W := W', rng := g'\<rparr>) }
          else Some st }"

primrec w_loop :: "'g env \<Rightarrow> params \<Rightarrow> mat \<Rightarrow> mat \<Rightarrow> nat list \<Rightarrow> 'g chain \<Rightarrow> 'g chain option" where
  "w_loop e p C D [] st = Some st"
| "w_loop e p C D (n # ns) st = do { st' \<leftarrow> w_step e p C D n st; w_loop e p C D ns st' }"

text \<open>
  Lines 144 to 146. \<^verbatim>\<open>np.random.gamma\<close> returns a Python float for scalar arguments, so the
  reciprocal of a draw of 0 raises \<^verbatim>\<open>ZeroDivisionError\<close>.
\<close>

definition gamma_shape :: "params \<Rightarrow> fl" where
  "gamma_shape p = Fin (real (nrows (V p) * ncols (V p))) / Fin 2 + Fin 1 + k p"

definition gamma_scale :: "params \<Rightarrow> fl \<Rightarrow> mat \<Rightarrow> mat \<Rightarrow> mat \<Rightarrow> fl" where
  "gamma_scale p v Wm C D =
     Fin 1 / (theta p + v + msum (multiply Wm (msub (dot Wm C) (mscale (Fin 2) D))) / Fin 2)"

definition sigma_step :: "'g env \<Rightarrow> params \<Rightarrow> fl \<Rightarrow> mat \<Rightarrow> mat \<Rightarrow> 'g chain \<Rightarrow> 'g chain option" where
  "sigma_step e p v C D st =
     (if \<not> n_sigma p then
        do { (gm, g') \<leftarrow> gamma e (rng st) (gamma_shape p) (gamma_scale p v (W st) C D);
             if gm = Fin 0 then None
             else Some (st\<lparr>sigma_cur := Fin 1 / gm, rng := g'\<rparr>) }
      else Some st)"

text \<open>
  The call of \<^verbatim>\<open>_randr\<close> on line 153. Its mean is a \<open>1 \<times> N\<close> row, and its prior
  \<^verbatim>\<open>self.beta[n, :].T\<close> is an \<open>N \<times> 1\<close> column. In \<^verbatim>\<open>_randr\<close> the tilt \<open>A\<close> and the masks then
  have the broadcast shape \<open>N \<times> N\<close>, and numpy takes such a mask as an index of the
  \<open>1 \<times> N\<close> arrays \<open>x\<close> and \<open>y\<close> only when the shapes agree, that is when \<open>N = 1\<close>; for any
  other \<open>N\<close> the call raises. (On line 140 both operands are \<open>M \<times> 1\<close> columns.)
\<close>

definition randr_row_col :: "'g env \<Rightarrow> 'g \<Rightarrow> vec \<Rightarrow> fl \<Rightarrow> vec \<Rightarrow> (vec \<times> 'g) option" where
  "randr_row_col e g m s l =
     (if length m = 1 \<and> length l = 1 then randr e g m s l else None)"

text \<open>
  The body of the loop over the rows of \<open>H\<close>, lines 151 to 155. \<^verbatim>\<open>temp[j]\<close> reads along
  the first axis of the \<open>1 \<times> N\<close> result, which has the one entry of \<open>temp\<close> when \<open>N = 1\<close>.
\<close>

definition h_step :: "'g env \<Rightarrow> params \<Rightarrow> mat \<Rightarrow> mat \<Rightarrow> nat \<Rightarrow> 'g chain \<Rightarrow> 'g chain option" where
  "h_step e p E F n st =
     do { frozen \<leftarrow> idx (n_h p) n;
          if \<not> frozen then
            do { let nn = nn_idx n (rank p);
                 l \<leftarrow> getrow (beta p) n;
                 (temp, g') \<leftarrow> randr_row_col e (rng st) (h_mean (H st) E F nn n)
                                  (sigma_cur st / (E ! n ! n)) l;
                 H' \<leftarrow> write_row n temp [0..<ncols (H st)] (H st);
                 Some (st\<lparr>H := H', rng := g'\<rparr>) }
          else Some st }"

primrec h_loop :: "'g env \<Rightarrow> params \<Rightarrow> mat \<Rightarrow> mat \<Rightarrow> nat list \<Rightarrow> 'g chain \<Rightarrow> 'g chain option" where
  "h_loop e p E F [] st = Some st"
| "h_loop e p E F (n # ns) st = do { st' \<leftarrow> h_step e p E F n st; h_loop e p E F ns st' }"

text \<open>One pass of the outer loop of \<^verbatim>\<open>update\<close>, lines 135 to 155; \<open>v\<close> is \<^verbatim>\<open>self.v\<close>.\<close>

definition sweep :: "'g env \<Rightarrow> params \<Rightarrow> fl \<Rightarrow> 'g chain \<Rightarrow> 'g chain option" where
  "sweep e p v st =
     do { let C = dot (H st) (tr (H st));
          let D = dot (V p) (tr (H st));
          st1 \<leftarrow> w_loop e p C D [0..<rank p] st;
          st2 \<leftarrow> sigma_step e p v C D st1;
          let E = dot (tr (W st2)) (W st2);
          let F = dot (tr (W st2)) (V p);
          st3 \<leftarrow> h_loop e p E F [0..<rank p] st2;
          Some (st3\<lparr>sweeps := Suc (sweeps st3)\<rparr>) }"

primrec sweep_n :: "'g env \<Rightarrow> params \<Rightarrow> fl \<Rightarrow> nat \<Rightarrow> 'g chain \<Rightarrow> 'g chain option" where
  "sweep_n e p v 0 st = Some st"
| "sweep_n e p v (Suc c) st = do { st' \<leftarrow> sweep e p v st; sweep_n e p v c st' }"

text \<open>
  \<^verbatim>\<open>xrange(self.skip * (iter == 0) + self.stride * (iter > 0))\<close>: a boolean is 0 or 1 as a
  factor, and \<^verbatim>\<open>xrange\<close> of a negative number is empty.
\<close>

definition b2i :: "bool \<Rightarrow> int" where
  "b2i b = (if b then 1 else 0)"

definition n_sweeps :: "params \<Rightarrow> int \<Rightarrow> nat" where
  "n_sweeps p iter = nat (skip p * b2i (iter = 0) + stride p * b2i (iter > 0))"

definition update :: "'g env \<Rightarrow> params \<Rightarrow> fl \<Rightarrow> int \<Rightarrow> 'g chain \<Rightarrow> 'g chain option" where
  "update e p v iter st = sweep_n e p v (n_sweeps p iter) st"

definition objective :: "params \<Rightarrow> 'g chain \<Rightarrow> fl" where
  "objective p st = msum (sop_pow2 (msub (V p) (dot (W st) (H st))))"

section \<open>Runs\<close>

text \<open>
  The \<^verbatim>\<open>while\<close> loop of \<^verbatim>\<open>factorize\<close>, lines 90 to 94, on the loop variables and the chain.
  The result \<open>None\<close> is a loop that never ends, \<open>Some None\<close> an exception raised by
  \<^verbatim>\<open>update\<close>, and \<open>Some (Some (cobj, iter, st))\<close> the values at the exit of the loop.
\<close>

partial_function (option) run_loop ::
  "'g env \<Rightarrow> params \<Rightarrow> fl \<Rightarrow> fl \<times> fl \<times> int \<times> 'g chain \<Rightarrow> (fl \<times> int \<times> 'g chain) option option"
where
  "run_loop e p v s =
     (case s of (pobj, cobj, iter, st) \<Rightarrow>
        if is_satisfied p pobj cobj iter then
          (case update e p v iter st of
             None \<Rightarrow> Some None
           | Some st' \<Rightarrow>
               run_loop e p v
                 (cobj,
                  (if \<not> truthy_int (test_conv p) \<or> iter mod the (test_conv p) = 0
                   then objective p st' else cobj),
                  iter + 1,
                  st'))
        else Some (Some (cobj, iter, st)))"

text \<open>
  What \<^verbatim>\<open>factorize\<close> carries from one run to the next: the chain (\<^verbatim>\<open>self.sigma\<close> and the
  random source are not reset between runs), the loop variables \<open>cobj\<close> and \<open>iter\<close> of the
  last run (\<open>None\<close> before the first run, when the names are unbound), and the tracker.
\<close>

record 'g session =
  chain :: "'g chain"
  last :: "(fl \<times> int) option"
  tracker :: "(mat \<times> mat \<times> fl) list"

text \<open>
  The body of the \<^verbatim>\<open>for\<close> loop, lines 87 to 100. The run-completion callback is an external
  collaborator and is left out. The ghost counter starts at 0 in every run.
\<close>

definition one_run :: "'g env \<Rightarrow> params \<Rightarrow> fl \<Rightarrow> 'g session \<Rightarrow> 'g session option option" where
  "one_run e p v fs =
     (let ((W0, H0), g1) = initialize e (rng (chain fs)) (V p) (rank p) (options p);
          st0 = (chain fs)\<lparr>W := W0, H := H0, rng := g1, sweeps := 0\<rparr>;
          obj0 = objective p st0
      in case run_loop e p v (obj0, obj0, 0, st0) of
           None \<Rightarrow> None
         | Some None \<Rightarrow> Some None
         | Some (Some (cobj, iter, st)) \<Rightarrow>
             Some (Some \<lparr> chain = st, last = Some (cobj, iter),
                          tracker = (if track p
                                     then tracker fs @ [(W st, H st, sigma_cur st)]
                                     else tracker fs) \<rparr>))"

primrec run_all :: "'g env \<Rightarrow> params \<Rightarrow> fl \<Rightarrow> nat \<Rightarrow> 'g session \<Rightarrow> 'g session option option" where
  "run_all e p v 0 fs = Some (Some fs)"
| "run_all e p v (Suc n) fs =
     (case one_run e p v fs of
        None \<Rightarrow> None
      | Some None \<Rightarrow> Some None
      | Some (Some fs') \<Rightarrow> run_all e p v n fs')"

text \<open>The fitted model that \<^verbatim>\<open>factorize\<close> returns, as far as this class fills it.\<close>

record 'g fit =
  fit_W :: mat
  fit_H :: mat
  fit_sigma :: fl
  n_iter :: int
  final_obj :: fl
  fit_tracker :: "(mat \<times> mat \<times> fl) list option"
  fit_sweeps :: nat
  fit_rng :: 'g

text \<open>Line 84: \<^verbatim>\<open>self.v = multiply(self.V, self.V).sum() / 2.\<close>\<close>

definition self_v :: "mat \<Rightarrow> fl" where
  "self_v Vm = msum (multiply Vm Vm) / Fin 2"

text \<open>
  \<^verbatim>\<open>factorize\<close>, from the job and the state \<open>g\<close> of the random source. With \<open>n_run = 0\<close> the
  name \<^verbatim>\<open>iter\<close> is unbound on line 102, which raises.
\<close>

definition factorize :: "'g env \<Rightarrow> 'g \<Rightarrow> job \<Rightarrow> 'g fit option option" where
  "factorize e g j =
     (let p = set_params j;
          v = self_v (V p)
      in case run_all e p v (n_run p)
                \<lparr> chain = \<lparr> W = [], H = [], sigma_cur = sigma p, rng = g, sweeps = 0 \<rparr>,
                  last = None, tracker = [] \<rparr> of
           None \<Rightarrow> None
         | Some None \<Rightarrow> Some None
         | Some (Some fs) \<Rightarrow>
             (case last fs of
                None \<Rightarrow> Some None
              | Some (cobj, iter) \<Rightarrow>
                  Some (Some \<lparr> fit_W = W (chain fs), fit_H = H (chain fs),
                               fit_sigma = sigma_cur (chain fs), n_iter = iter - 1,
                               final_obj = cobj,
                               fit_tracker = (if track p then Some (tracker fs) else None),
                               fit_sweeps = sweeps (chain fs),
                               fit_rng = rng (chain fs) \<rparr>)))"

section \<open>Predicates of the specification\<close>

text \<open>A value that is a finite, nonnegative number: neither NaN nor an infinity.\<close>

fun nonneg_fin :: "fl \<Rightarrow> bool" where
  "nonneg_fin (Fin r) = (0 \<le> r)"
| "nonneg_fin _ = False"

definition nonneg_mat :: "mat \<Rightarrow> bool" where
  "nonneg_mat M = list_all (list_all nonneg_fin) M"

text \<open>What the clean-up of the sampler does to one candidate value, in the specification's words.\<close>

definition clamp0 :: "fl \<Rightarrow> fl" where
  "clamp0 c = (if isnan c \<or> c < Fin 0 \<or> isinf c then Fin 0 else c)"

text \<open>
  The shapes the specification gives the priors and the masks: \<open>alpha\<close> is \<open>m \<times> rank\<close>,
  \<open>beta\<close> is \<open>rank \<times> n\<close>, \<open>n_w\<close> and \<open>n_h\<close> have \<open>rank\<close> entries.
\<close>

definition has_shape :: "nat \<Rightarrow> nat \<Rightarrow> mat \<Rightarrow> bool" where
  "has_shape r c M = (length M = r \<and> list_all (\<lambda>row. length row = c) M)"

definition shapes_ok :: "params \<Rightarrow> bool" where
  "shapes_ok p =
     (has_shape (nrows (V p)) (rank p) (alpha p) \<and> has_shape (rank p) (ncols (V p)) (beta p)
      \<and> length (n_w p) = rank p \<and> length (n_h p) = rank p)"

section \<open>A worked instance\<close>

text \<open>
  A deterministic instance of the collaborators, to run the model on concrete inputs: every
  uniform draw is \<open>1/2\<close>, every Gamma draw is \<open>2\<close>, the seeder returns \<open>W = (1 1)\<close> and
  \<open>H = (1 1)\<^sup>T\<close>, and two simple functions stand for \<^verbatim>\<open>erfc\<close> and \<^verbatim>\<open>erfcinv\<close>. The job
  factorizes the \<open>1 \<times> 1\<close> matrix \<open>(3)\<close> with rank 2, one burn-in sweep, the first column of
  \<open>W\<close> and the first row of \<open>H\<close> frozen; \<open>extra\<close> are entries of \<open>n_w\<close> beyond the rank and
  \<open>ns\<close> is \<open>n_sigma\<close>.
\<close>

definition stub_env :: "nat env" where
  "stub_env =
     \<lparr> erfc = (\<lambda>x. Fin 1), erfcinv = (\<lambda>x. x),
       uniform = (\<lambda>g. (Fin (1 / 2), Suc g)),
       gamma = (\<lambda>g sh sc. Some (Fin 2, Suc g)),
       initialize = (\<lambda>g Vm r opts. (([[Fin 1, Fin 1]], [[Fin 1], [Fin 1]]), g)) \<rparr>"

definition demo_job :: "bool list \<Rightarrow> bool \<Rightarrow> job" where
  "demo_job extra ns =
     \<lparr> V = [[Fin 3]], rank = 2, n_run = 1, max_iter = None, min_residuals = None,
       test_conv = None,
       options = \<lparr> opt_alpha = None, opt_beta = None, opt_theta = None, opt_k = None,
         opt_sigma = Some (Fin 2), opt_skip = Some 1, opt_stride = None,
         opt_n_w = Some (True # False # extra), opt_n_h = Some [True, False],
         opt_n_sigma = Some ns, opt_track = None \<rparr> \<rparr>"

section \<open>Auxiliary notions of the proofs\<close>

text \<open>The number of selected positions before position \<open>i\<close> of a mask.\<close>

definition trues_before :: "bool list \<Rightarrow> nat \<Rightarrow> nat" where
  "trues_before a i = length (filter id (take i a))"

definition nonneg_chain :: "'g chain \<Rightarrow> bool" where
  "nonneg_chain st = (nonneg_mat (W st) \<and> nonneg_mat (H st))"

text \<open>
  The number of sweeps a run has executed when its loop counter is \<open>iter\<close>: the first
  update step runs \<open>skip\<close> sweeps and every later one \<open>stride\<close> sweeps, a negative count
  being no sweep at all.
\<close>

definition sweeps_after :: "params \<Rightarrow> int \<Rightarrow> int" where
  "sweeps_after p iter =
     (if iter \<le> 0 then 0 else max 0 (skip p) + (iter - 1) * max 0 (stride p))"

definition run_done :: "params \<Rightarrow> 'g session \<Rightarrow> bool" where
  "run_done p fs =
     (case last fs of None \<Rightarrow> True
      | Some (cobj, iter) \<Rightarrow> 0 \<le> iter \<and> int (sweeps (chain fs)) = sweeps_after p iter)"

text \<open>The seeder's contract: the matrices it returns are finite and nonnegative.\<close>

definition seeds_nonneg :: "'g env \<Rightarrow> bool" where
  "seeds_nonneg e =
     (\<forall>g Vm r opts. nonneg_mat (fst (fst (initialize e g Vm r opts)))
                    \<and> nonneg_mat (snd (fst (initialize e g Vm r opts))))"

text \<open>
  The chain at the start of a run: the seeder's matrices, the noise variance \<open>s\<close> carried
  over, and no sweep counted yet.
\<close>

definition seeded :: "'g env \<Rightarrow> params \<Rightarrow> 'g \<Rightarrow> fl \<Rightarrow> 'g chain" where
  "seeded e p g s =
     \<lparr> W = fst (fst (initialize e g (V p) (rank p) (options p))),
       H = snd (fst (initialize e g (V p) (rank p) (options p))),
       sigma_cur = s,
       rng = snd (initialize e g (V p) (rank p) (options p)),
       sweeps = 0 \<rparr>"

section \<open>Verified properties\<close>

subsection \<open>Stopping criterion\<close>

text \<open>The three conditions under which \<^verbatim>\<open>_is_satisfied\<close> returns \<open>False\<close>.\<close>

lemma is_satisfied_stops_iff:
  "(\<not> is_satisfied p pobj cobj iter) =
     ((truthy_int (max_iter p) \<and> the (max_iter p) < iter)
      \<or> (truthy_fl (min_residuals p) \<and> 0 < iter \<and> cobj - pobj \<le> the (min_residuals p))
      \<or> (0 < iter \<and> cobj \<ge> pobj))"
  by (simp add: is_satisfied_def)

subsection \<open>Default of the sweep cap\<close>

text \<open>
  Claim C10. When \<open>max_iter\<close> is unset or false in Python's sense (such as 0),
  \<^verbatim>\<open>_set_params\<close> replaces it with 30; a true value is kept. So after parameter setup
  \<open>max_iter\<close> is always true, it is never 0, and the stopping predicate stops every
  iteration counter above it: the \<open>max_iter\<close> branch is never disabled.
\<close>

theorem set_params_max_iter:
  "(\<not> truthy_int (max_iter j) \<longrightarrow> max_iter (set_params j) = Some 30)
   \<and> (truthy_int (max_iter j) \<longrightarrow> max_iter (set_params j) = max_iter j)
   \<and> truthy_int (max_iter (set_params j))
   \<and> max_iter (set_params j) \<noteq> Some 0
   \<and> (\<forall>iter. the (max_iter (set_params j)) < iter
         \<longrightarrow> \<not> is_satisfied (set_params j) pobj cobj iter)"
  by (auto simp: set_params_def is_satisfied_def truthy_int_def split: option.splits)

theorem set_params_max_iter_witness:
  "max_iter (set_params ((demo_job [] True)\<lparr>max_iter := Some 0\<rparr>)) = Some 30
   \<and> max_iter (set_params ((demo_job [] True)\<lparr>max_iter := Some 5\<rparr>)) = Some 5
   \<and> \<not> is_satisfied (set_params ((demo_job [] True)\<lparr>max_iter := Some 0\<rparr>)) (Fin 2) (Fin 1) 31
   \<and> \<not> is_satisfied (set_params ((demo_job [] True)\<lparr>max_iter := Some 5\<rparr>)) (Fin 2) (Fin 1) 6"
  using set_params_max_iter [of "(demo_job [] True)\<lparr>max_iter := Some 0\<rparr>" "Fin 2" "Fin 1"]
    set_params_max_iter [of "(demo_job [] True)\<lparr>max_iter := Some 5\<rparr>" "Fin 2" "Fin 1"]
  by (simp add: truthy_int_def)

subsection \<open>Boolean masks and the two branches of the sampler\<close>

lemma length_put: "length (put a x vs) = length x"
  by (induction a x vs rule: put.induct) auto

lemma length_rand_n: "length (fst (rand_n e g n)) = n"
  by (induction n arbitrary: g) (simp_all add: Let_def split_beta)

lemma length_sel: "length xs = length a \<Longrightarrow> length (sel a xs) = length (filter id a)"
  by (induction a xs rule: sel.induct) auto

lemma trues_before_less:
  "i < length a \<Longrightarrow> a ! i \<Longrightarrow> trues_before a i < length (filter id a)"
proof (induction a arbitrary: i)
  case Nil
  then show ?case by simp
next
  case (Cons b bs)
  then show ?case by (cases i) (auto simp: trues_before_def)
qed

lemma sel_nth:
  "length xs = length a \<Longrightarrow> i < length a \<Longrightarrow> a ! i \<Longrightarrow> sel a xs ! trues_before a i = xs ! i"
proof (induction a arbitrary: xs i)
  case Nil
  then show ?case by simp
next
  case (Cons b bs)
  then obtain x0 xs' where "xs = x0 # xs'" by (metis length_Suc_conv)
  with Cons show ?case by (cases i) (auto simp: trues_before_def)
qed

lemma put_nth:
  "length x = length a \<Longrightarrow> length vs = length (filter id a) \<Longrightarrow> i < length a \<Longrightarrow>
   put a x vs ! i = (if a ! i then vs ! trues_before a i else x ! i)"
proof (induction a arbitrary: x vs i)
  case Nil
  then show ?case by simp
next
  case (Cons b bs)
  then obtain x0 xs where x: "x = x0 # xs" by (metis length_Suc_conv)
  show ?case
  proof (cases b)
    case True
    with Cons.prems obtain v0 vs' where "vs = v0 # vs'" by (cases vs) auto
    with Cons x True show ?thesis by (cases i) (auto simp: trues_before_def)
  next
    case False
    with Cons x show ?thesis by (cases i) (auto simp: trues_before_def)
  qed
qed

lemma randr_draw_nth:
  assumes "length l = length m" "length y = length m" "i < length m"
  shows "randr_draw e m s l y ! i =
     (if tilt (m ! i) s (l ! i) > Fin 26 then tail_draw (y ! i) (m ! i) s (l ! i)
      else exact_draw e (y ! i) (m ! i) s (l ! i))"
proof -
  define A where "A = map (\<lambda>t. t / fl_sqrt (Fin 2 * s)) (vsub (map (\<lambda>li. li * s) l) m)"
  define a where "a = map (\<lambda>Ai. Ai > Fin 26) A"
  define a' where "a' = map Not a"
  have lA: "length A = length m" using assms by (simp add: A_def vsub_def)
  have la: "length a = length m" "length a' = length m" by (simp_all add: a_def a'_def lA)
  have Ai: "A ! i = tilt (m ! i) s (l ! i)"
    using assms by (simp add: A_def vsub_def tilt_def)
  have ai: "a ! i = (tilt (m ! i) s (l ! i) > Fin 26)" "a' ! i = (\<not> a ! i)"
    using assms lA la by (simp_all add: a_def a'_def Ai)
  define x1 where "x1 = put a (replicate (length m) (Fin 0))
                (vdiv (map (\<lambda>u. - fl_log u) (sel a y))
                      (map (\<lambda>t. t / s) (vsub (map (\<lambda>li. li * s) (sel a l)) (sel a m))))"
  have lx1: "length x1 = length m" by (simp add: x1_def length_put)
  have x1i: "a ! i \<Longrightarrow> x1 ! i = tail_draw (y ! i) (m ! i) s (l ! i)"
    using assms la trues_before_less [of i a]
    by (simp add: x1_def put_nth length_sel sel_nth vdiv_def vsub_def tail_draw_def)
  define R where "R = map (\<lambda>Ai. erfc e (abs Ai)) (sel a' A)"
  define x2 where "x2 = put a' x1
                (vsub
                  (vadd
                    (map (\<lambda>t. erfcinv e t * fl_sqrt (Fin 2 * s))
                      (vsub (vmul (sel a' y) R)
                            (vmul (map (\<lambda>Ai. b2f (Ai < Fin 0)) (sel a' A))
                                  (map (\<lambda>t. t - Fin 2)
                                     (vadd (map (\<lambda>u. Fin 2 * u) (sel a' y)) R)))))
                    (sel a' m))
                  (map (\<lambda>li. li * s) (sel a' l)))"
  have x2i: "x2 ! i = (if a' ! i then exact_draw e (y ! i) (m ! i) s (l ! i) else x1 ! i)"
    using assms la lA lx1 trues_before_less [of i a']
    by (simp add: x2_def R_def put_nth length_sel sel_nth vdiv_def vsub_def vadd_def vmul_def
        exact_draw_def Let_def Ai)
  have "randr_draw e m s l y = x2"
    by (simp only: randr_draw_def Let_def x2_def R_def x1_def a'_def a_def A_def)
  with x2i x1i ai show ?thesis by simp
qed

subsection \<open>What a sweep leaves unchanged\<close>

lemma set_cell_length: "set_cell M i j v = Some M' \<Longrightarrow> length M' = length M"
  by (auto simp: set_cell_def split: if_splits)

lemma set_cell_column:
  "set_cell M i j v = Some M' \<Longrightarrow> c \<noteq> j \<Longrightarrow> column M' c = column M c"
  by (auto simp: set_cell_def column_def map_update nth_list_update split: if_splits
      intro!: nth_equalityI)

lemma set_cell_row:
  "set_cell M i j v = Some M' \<Longrightarrow> r \<noteq> i \<Longrightarrow> getrow M' r = getrow M r"
  by (auto simp: set_cell_def getrow_def idx_def split: if_splits)

lemma write_col_column:
  "write_col n temp js M = Some M' \<Longrightarrow> c \<noteq> n \<Longrightarrow> column M' c = column M c"
proof (induction js arbitrary: M)
  case Nil
  then show ?case by simp
next
  case (Cons j js)
  then show ?case
    by (auto split: bind_splits dest: set_cell_column)
qed

lemma write_row_row:
  "write_row n temp js M = Some M' \<Longrightarrow> r \<noteq> n \<Longrightarrow> getrow M' r = getrow M r"
proof (induction js arbitrary: M)
  case Nil
  then show ?case by simp
next
  case (Cons j js)
  then show ?case
    by (auto split: bind_splits dest: set_cell_row)
qed

lemma w_step_frame:
  assumes "w_step e p C D n st = Some st'"
  shows "H st' = H st" "sigma_cur st' = sigma_cur st" "sweeps st' = sweeps st"
    "idx (n_w p) i = Some True \<Longrightarrow> column (W st') i = column (W st) i"
proof -
  show "H st' = H st" "sigma_cur st' = sigma_cur st" "sweeps st' = sweeps st"
    using assms
    by (auto simp: w_step_def Let_def split: bind_splits if_splits prod.splits)
  assume fr: "idx (n_w p) i = Some True"
  show "column (W st') i = column (W st) i"
  proof (cases "idx (n_w p) n = Some False")
    case True
    with fr have "i \<noteq> n" by auto
    with assms True show ?thesis
      by (auto simp: w_step_def Let_def split: bind_splits if_splits prod.splits
          dest: write_col_column)
  next
    case False
    with assms show ?thesis
      by (auto simp: w_step_def Let_def split: bind_splits if_splits prod.splits)
  qed
qed

lemma w_loop_frame:
  assumes "w_loop e p C D ns st = Some st'"
  shows "H st' = H st \<and> sigma_cur st' = sigma_cur st \<and> sweeps st' = sweeps st
    \<and> (idx (n_w p) i = Some True \<longrightarrow> column (W st') i = column (W st) i)"
  using assms
proof (induction ns arbitrary: st)
  case Nil
  then show ?case by simp
next
  case (Cons n ns)
  then obtain st1 where 1: "w_step e p C D n st = Some st1" "w_loop e p C D ns st1 = Some st'"
    by (auto split: bind_splits)
  from Cons.IH [OF 1(2)] w_step_frame [OF 1(1)] show ?case by simp
qed

lemma h_step_frame:
  assumes "h_step e p E F n st = Some st'"
  shows "W st' = W st" "sigma_cur st' = sigma_cur st" "sweeps st' = sweeps st"
    "idx (n_h p) i = Some True \<Longrightarrow> getrow (H st') i = getrow (H st) i"
proof -
  show "W st' = W st" "sigma_cur st' = sigma_cur st" "sweeps st' = sweeps st"
    using assms
    by (auto simp: h_step_def Let_def split: bind_splits if_splits prod.splits)
  assume fr: "idx (n_h p) i = Some True"
  show "getrow (H st') i = getrow (H st) i"
  proof (cases "idx (n_h p) n = Some False")
    case True
    with fr have "i \<noteq> n" by auto
    with assms True show ?thesis
      by (auto simp: h_step_def Let_def split: bind_splits if_splits prod.splits
          dest: write_row_row)
  next
    case False
    with assms show ?thesis
      by (auto simp: h_step_def Let_def split: bind_splits if_splits prod.splits)
  qed
qed

lemma h_loop_frame:
  assumes "h_loop e p E F ns st = Some st'"
  shows "W st' = W st \<and> sigma_cur st' = sigma_cur st \<and> sweeps st' = sweeps st
    \<and> (idx (n_h p) i = Some True \<longrightarrow> getrow (H st') i = getrow (H st) i)"
  using assms
proof (induction ns arbitrary: st)
  case Nil
  then show ?case by simp
next
  case (Cons n ns)
  then obtain st1 where 1: "h_step e p E F n st = Some st1" "h_loop e p E F ns st1 = Some st'"
    by (auto split: bind_splits)
  from Cons.IH [OF 1(2)] h_step_frame [OF 1(1)] show ?case by simp
qed

lemma sigma_step_frame:
  assumes "sigma_step e p v C D st = Some st'"
  shows "W st' = W st" "H st' = H st" "sweeps st' = sweeps st"
    "n_sigma p \<Longrightarrow> sigma_cur st' = sigma_cur st"
  using assms
  by (auto simp: sigma_step_def split: bind_splits if_splits prod.splits)

lemma sweep_frame:
  assumes "sweep e p v st = Some st'"
  shows "sweeps st' = Suc (sweeps st)"
    "idx (n_w p) i = Some True \<Longrightarrow> column (W st') i = column (W st) i"
    "idx (n_h p) i = Some True \<Longrightarrow> getrow (H st') i = getrow (H st) i"
    "n_sigma p \<Longrightarrow> sigma_cur st' = sigma_cur st"
proof -
  from assms obtain st1 st2 st3 where
    1: "w_loop e p (dot (H st) (tr (H st))) (dot (V p) (tr (H st))) [0..<rank p] st = Some st1"
    and 2: "sigma_step e p v (dot (H st) (tr (H st))) (dot (V p) (tr (H st))) st1 = Some st2"
    and 3: "h_loop e p (dot (tr (W st2)) (W st2)) (dot (tr (W st2)) (V p)) [0..<rank p] st2 = Some st3"
    and 4: "st' = st3\<lparr>sweeps := Suc (sweeps st3)\<rparr>"
    by (auto simp: sweep_def Let_def split: bind_splits)
  note a = w_loop_frame [OF 1, of i] sigma_step_frame [OF 2] h_loop_frame [OF 3, of i]
  show "sweeps st' = Suc (sweeps st)" using a 4 by simp
  show "idx (n_w p) i = Some True \<Longrightarrow> column (W st') i = column (W st) i" using a 4 by simp
  show "idx (n_h p) i = Some True \<Longrightarrow> getrow (H st') i = getrow (H st) i" using a 4 by simp
  show "n_sigma p \<Longrightarrow> sigma_cur st' = sigma_cur st" using a 4 by simp
qed

lemma sweep_n_frame:
  assumes "sweep_n e p v c st = Some st'"
  shows "sweeps st' = sweeps st + c
    \<and> (idx (n_w p) i = Some True \<longrightarrow> column (W st') i = column (W st) i)
    \<and> (idx (n_h p) i = Some True \<longrightarrow> getrow (H st') i = getrow (H st) i)
    \<and> (n_sigma p \<longrightarrow> sigma_cur st' = sigma_cur st)"
  using assms
proof (induction c arbitrary: st)
  case 0
  then show ?case by simp
next
  case (Suc c)
  then obtain st1 where 1: "sweep e p v st = Some st1" "sweep_n e p v c st1 = Some st'"
    by (auto split: bind_splits)
  from Suc.IH [OF 1(2)] sweep_frame(1) [OF 1(1)] sweep_frame(2-3) [OF 1(1), of i]
    sweep_frame(4) [OF 1(1)]
  show ?case by simp
qed

subsection \<open>The clean-up and nonnegative factors\<close>

lemma clean_map: "clean x = map clamp0 x"
proof -
  have "(if isinf (if (if isnan c then Fin 0 else c) < Fin 0 then Fin 0
                   else (if isnan c then Fin 0 else c)) then Fin 0
         else (if (if isnan c then Fin 0 else c) < Fin 0 then Fin 0
               else (if isnan c then Fin 0 else c))) = clamp0 c" for c
    by (cases c) (auto simp: clamp0_def fl_arith)
  then show ?thesis by (simp add: clean_def Let_def comp_def)
qed

lemma nonneg_clamp0: "nonneg_fin (clamp0 c)"
  by (cases c) (auto simp: clamp0_def fl_arith)

lemma randr_result:
  assumes "randr e g m s l = Some (x, g')"
  shows "x = map clamp0 (randr_draw e m s l (fst (rand_n e g (length m))))"
    and "length l = length m"
    and "g' = snd (rand_n e g (length m))"
  using assms by (auto simp: randr_def clean_map split: if_splits prod.splits)

lemma length_randr_draw: "length (randr_draw e m s l y) = length m"
  by (simp add: randr_draw_def Let_def length_put)

lemma randr_nonneg: "randr e g m s l = Some (x, g') \<Longrightarrow> list_all nonneg_fin x"
  using randr_result(1) [of e g m s l x g'] by (auto simp: list_all_iff nonneg_clamp0)

lemma set_cell_nonneg:
  "set_cell M i j v = Some M' \<Longrightarrow> nonneg_mat M \<Longrightarrow> nonneg_fin v \<Longrightarrow> nonneg_mat M'"
  unfolding set_cell_def nonneg_mat_def list_all_iff
  by (auto split: if_splits dest!: set_update_subset_insert [THEN subsetD])

lemma write_col_nonneg:
  "write_col n temp js M = Some M' \<Longrightarrow> nonneg_mat M \<Longrightarrow> list_all nonneg_fin temp
   \<Longrightarrow> nonneg_mat M'"
proof (induction js arbitrary: M)
  case Nil
  then show ?case by simp
next
  case (Cons j js)
  then obtain t M1 where 1: "idx temp j = Some t" "set_cell M j n t = Some M1"
    "write_col n temp js M1 = Some M'"
    by (auto split: bind_splits)
  from 1(1) Cons.prems(3) have "nonneg_fin t"
    by (auto simp: idx_def list_all_iff split: if_splits)
  with set_cell_nonneg [OF 1(2)] Cons.prems(2) have "nonneg_mat M1" by simp
  with Cons.IH [OF 1(3)] Cons.prems(3) show ?case by simp
qed

lemma write_row_nonneg:
  "write_row n temp js M = Some M' \<Longrightarrow> nonneg_mat M \<Longrightarrow> list_all nonneg_fin temp
   \<Longrightarrow> nonneg_mat M'"
proof (induction js arbitrary: M)
  case Nil
  then show ?case by simp
next
  case (Cons j js)
  then obtain t M1 where 1: "idx temp j = Some t" "set_cell M n j t = Some M1"
    "write_row n temp js M1 = Some M'"
    by (auto split: bind_splits)
  from 1(1) Cons.prems(3) have "nonneg_fin t"
    by (auto simp: idx_def list_all_iff split: if_splits)
  with set_cell_nonneg [OF 1(2)] Cons.prems(2) have "nonneg_mat M1" by simp
  with Cons.IH [OF 1(3)] Cons.prems(3) show ?case by simp
qed

lemma w_step_nonneg:
  "w_step e p C D n st = Some st' \<Longrightarrow> nonneg_chain st \<Longrightarrow> nonneg_chain st'"
  by (auto simp: w_step_def Let_def nonneg_chain_def split: bind_splits if_splits prod.splits
      dest: write_col_nonneg randr_nonneg)

lemma w_loop_nonneg:
  "w_loop e p C D ns st = Some st' \<Longrightarrow> nonneg_chain st \<Longrightarrow> nonneg_chain st'"
  by (induction ns arbitrary: st) (auto split: bind_splits dest: w_step_nonneg)

lemma randr_row_col_nonneg:
  "randr_row_col e g m s l = Some (x, g') \<Longrightarrow> list_all nonneg_fin x"
  by (auto simp: randr_row_col_def split: if_splits dest: randr_nonneg)

lemma h_step_nonneg:
  "h_step e p E F n st = Some st' \<Longrightarrow> nonneg_chain st \<Longrightarrow> nonneg_chain st'"
  by (auto simp: h_step_def Let_def nonneg_chain_def split: bind_splits if_splits prod.splits
      dest: write_row_nonneg randr_row_col_nonneg)

lemma h_loop_nonneg:
  "h_loop e p E F ns st = Some st' \<Longrightarrow> nonneg_chain st \<Longrightarrow> nonneg_chain st'"
  by (induction ns arbitrary: st) (auto split: bind_splits dest: h_step_nonneg)

lemma sigma_step_nonneg:
  "sigma_step e p v C D st = Some st' \<Longrightarrow> nonneg_chain st \<Longrightarrow> nonneg_chain st'"
  by (auto simp: sigma_step_def nonneg_chain_def split: bind_splits if_splits prod.splits)

lemma sweep_nonneg:
  "sweep e p v st = Some st' \<Longrightarrow> nonneg_chain st \<Longrightarrow> nonneg_chain st'"
  by (auto simp: sweep_def Let_def split: bind_splits
      dest!: w_loop_nonneg sigma_step_nonneg h_loop_nonneg)
     (simp add: nonneg_chain_def)

lemma sweep_n_nonneg:
  "sweep_n e p v c st = Some st' \<Longrightarrow> nonneg_chain st \<Longrightarrow> nonneg_chain st'"
  by (induction c arbitrary: st) (auto split: bind_splits dest: sweep_nonneg)

lemma run_loop_inv_aux:
  assumes "run_loop e p v s = Some y"
  shows "(\<forall>it st st'. Inv it st \<longrightarrow> update e p v it st = Some st' \<longrightarrow> Inv (it + 1) st') \<longrightarrow>
   (\<forall>pobj cobj iter st r. s = (pobj, cobj, iter, st) \<longrightarrow> y = Some r \<longrightarrow> Inv iter st
        \<longrightarrow> Inv (fst (snd r)) (snd (snd r)))"
proof (rule run_loop.raw_induct [OF _ assms])
  fix rl :: "'a env \<Rightarrow> params \<Rightarrow> fl \<Rightarrow> fl \<times> fl \<times> int \<times> 'a chain
               \<Rightarrow> (fl \<times> int \<times> 'a chain) option option"
    and e p v s y
  assume IH: "\<And>e p v s y. rl e p v s = Some y \<Longrightarrow>
      (\<forall>it st st'. Inv it st \<longrightarrow> update e p v it st = Some st' \<longrightarrow> Inv (it + 1) st') \<longrightarrow>
      (\<forall>pobj cobj iter st r. s = (pobj, cobj, iter, st) \<longrightarrow> y = Some r \<longrightarrow> Inv iter st
        \<longrightarrow> Inv (fst (snd r)) (snd (snd r)))"
    and eq: "(case s of
      (pobj, cobj, iter, st) \<Rightarrow>
        if is_satisfied p pobj cobj iter
        then case update e p v iter st of None \<Rightarrow> Some None
             | Some st' \<Rightarrow>
                 rl e p v
                  (cobj,
                   if \<not> truthy_int (test_conv p) \<or> iter mod the (test_conv p) = 0
                   then objective p st' else cobj,
                   iter + 1, st')
        else Some (Some (cobj, iter, st))) = Some y"
  show "(\<forall>it st st'. Inv it st \<longrightarrow> update e p v it st = Some st' \<longrightarrow> Inv (it + 1) st') \<longrightarrow>
   (\<forall>pobj cobj iter st r. s = (pobj, cobj, iter, st) \<longrightarrow> y = Some r \<longrightarrow> Inv iter st
        \<longrightarrow> Inv (fst (snd r)) (snd (snd r)))"
  proof (intro impI allI)
    fix pobj cobj iter st r
    assume step: "\<forall>it st st'. Inv it st \<longrightarrow> update e p v it st = Some st' \<longrightarrow> Inv (it + 1) st'"
      and s: "s = (pobj, cobj, iter, st)" and y: "y = Some r" and inv: "Inv iter st"
    show "Inv (fst (snd r)) (snd (snd r))"
    proof (cases "is_satisfied p pobj cobj iter")
      case False
      with eq s y inv show ?thesis by auto
    next
      case True
      with eq s y obtain st' where u: "update e p v iter st = Some st'"
        and rec: "rl e p v (cobj,
                   (if \<not> truthy_int (test_conv p) \<or> iter mod the (test_conv p) = 0
                    then objective p st' else cobj), iter + 1, st') = Some (Some r)"
        by (auto split: option.splits)
      from step inv u have "Inv (iter + 1) st'" by blast
      with IH [OF rec] step show ?thesis by blast
    qed
  qed
qed

lemma run_loop_inv:
  assumes "run_loop e p v (pobj, cobj, iter, st) = Some (Some (cobj', iter', st'))"
    and "Inv iter st"
    and "\<And>it s s'. Inv it s \<Longrightarrow> update e p v it s = Some s' \<Longrightarrow> Inv (it + 1) s'"
  shows "Inv iter' st'"
  using run_loop_inv_aux [OF assms(1), of Inv] assms(2,3) by auto

lemma run_loop_terminates:
  assumes "truthy_int (max_iter p)"
  shows "\<exists>r. run_loop e p v (pobj, cobj, iter, st) = Some r"
proof (induction "nat (the (max_iter p) + 1 - iter)" arbitrary: pobj cobj iter st)
  case 0
  then have "the (max_iter p) < iter" by simp
  with assms have "\<not> is_satisfied p pobj cobj iter" by (simp add: is_satisfied_def)
  then show ?case by (subst run_loop.simps) simp
next
  case (Suc n)
  show ?case
  proof (cases "is_satisfied p pobj cobj iter")
    case False
    then show ?thesis by (subst run_loop.simps) simp
  next
    case True
    show ?thesis
    proof (cases "update e p v iter st")
      case None
      with True show ?thesis by (subst run_loop.simps) simp
    next
      case (Some st')
      from Suc(2) have "n = nat (the (max_iter p) + 1 - (iter + 1))" by simp
      from Suc(1) [OF this] True Some show ?thesis by (subst run_loop.simps) simp
    qed
  qed
qed

subsection \<open>Counting sweeps; termination of a run\<close>

lemma sweep_n_sweeps: "sweep_n e p v c st = Some st' \<Longrightarrow> sweeps st' = sweeps st + c"
  using sweep_n_frame [of e p v c st st'] by simp

lemma update_sweeps:
  assumes "update e p v iter st = Some st'" "0 \<le> iter"
  shows "int (sweeps st') = int (sweeps st) + max 0 (if iter = 0 then skip p else stride p)"
  using sweep_n_sweeps [OF assms(1) [unfolded update_def]] assms(2)
  by (auto simp: n_sweeps_def b2i_def)

lemma run_loop_sweeps:
  assumes "run_loop e p v (pobj, cobj, iter, st) = Some (Some (cobj', iter', st'))"
    and "0 \<le> iter" "int (sweeps st) = sweeps_after p iter"
  shows "0 \<le> iter' \<and> int (sweeps st') = sweeps_after p iter'"
proof (rule run_loop_inv [OF assms(1), where Inv = "\<lambda>it s. 0 \<le> it \<and> int (sweeps s) = sweeps_after p it"])
  show "0 \<le> iter \<and> int (sweeps st) = sweeps_after p iter" using assms by simp
next
  fix it s s'
  assume a: "0 \<le> it \<and> int (sweeps s) = sweeps_after p it" and u: "update e p v it s = Some s'"
  from update_sweeps [OF u] a
  show "0 \<le> it + 1 \<and> int (sweeps s') = sweeps_after p (it + 1)"
    by (auto simp: sweeps_after_def algebra_simps)
qed

lemma one_run_sweeps:
  assumes "one_run e p v fs = Some (Some fs')"
  shows "\<exists>cobj iter. last fs' = Some (cobj, iter) \<and> 0 \<le> iter
           \<and> int (sweeps (chain fs')) = sweeps_after p iter"
proof -
  obtain W0 H0 g1 where i: "initialize e (rng (chain fs)) (V p) (rank p) (options p) = ((W0, H0), g1)"
    by (metis prod.exhaust)
  define st0 where "st0 = (chain fs)\<lparr>W := W0, H := H0, rng := g1, sweeps := 0\<rparr>"
  from assms i obtain cobj iter st where
    r: "run_loop e p v (objective p st0, objective p st0, 0, st0) = Some (Some (cobj, iter, st))"
    and fs': "last fs' = Some (cobj, iter)" "chain fs' = st"
    by (auto simp: one_run_def Let_def st0_def split: option.splits)
  from run_loop_sweeps [OF r] have "0 \<le> iter \<and> int (sweeps st) = sweeps_after p iter"
    by (simp add: st0_def sweeps_after_def)
  with fs' show ?thesis by simp
qed

lemma run_all_sweeps:
  "run_all e p v n fs = Some (Some fs') \<Longrightarrow> run_done p fs \<Longrightarrow> run_done p fs'"
proof (induction n arbitrary: fs)
  case 0
  then show ?case by simp
next
  case (Suc n)
  then obtain fs1 where 1: "one_run e p v fs = Some (Some fs1)"
    "run_all e p v n fs1 = Some (Some fs')"
    by (auto split: option.splits)
  from one_run_sweeps [OF 1(1)] have "run_done p fs1" by (auto simp: run_done_def)
  with Suc.IH [OF 1(2)] show ?case by simp
qed

lemma one_run_terminates:
  "truthy_int (max_iter p) \<Longrightarrow> \<exists>r. one_run e p v fs = Some r"
proof -
  assume t: "truthy_int (max_iter p)"
  obtain W0 H0 g1 where i: "initialize e (rng (chain fs)) (V p) (rank p) (options p) = ((W0, H0), g1)"
    by (metis prod.exhaust)
  define st0 where "st0 = (chain fs)\<lparr>W := W0, H := H0, rng := g1, sweeps := 0\<rparr>"
  from run_loop_terminates [OF t, of e v "objective p st0" "objective p st0" 0 st0]
  obtain r where "run_loop e p v (objective p st0, objective p st0, 0, st0) = Some r" by blast
  with i show ?thesis
    by (auto simp: one_run_def Let_def st0_def split: option.splits)
qed

lemma run_all_terminates:
  "truthy_int (max_iter p) \<Longrightarrow> \<exists>r. run_all e p v n fs = Some r"
proof (induction n arbitrary: fs)
  case 0
  then show ?case by simp
next
  case (Suc n)
  from one_run_terminates [OF Suc.prems, of e v fs] obtain r where r: "one_run e p v fs = Some r"
    by blast
  show ?case
  proof (cases r)
    case None
    with r show ?thesis by simp
  next
    case (Some fs1)
    with r Suc.IH [OF Suc.prems, of fs1] show ?thesis by simp
  qed
qed

lemma set_params_truthy: "truthy_int (max_iter (set_params j))"
  by (simp add: set_params_def truthy_int_def split: option.splits)

lemma factorize_terminates: "\<exists>r. factorize e g j = Some r"
proof -
  define fs0 where "fs0 = \<lparr> chain = \<lparr> W = [], H = [], sigma_cur = sigma (set_params j), rng = g, sweeps = 0 \<rparr>,
                  last = None, tracker = [] \<rparr>"
  from run_all_terminates [OF set_params_truthy, of e j "self_v (V (set_params j))" "n_run (set_params j)" fs0]
  obtain r where "run_all e (set_params j) (self_v (V (set_params j))) (n_run (set_params j)) fs0 = Some r"
    by blast
  then show ?thesis
    by (auto simp: factorize_def Let_def fs0_def split: option.splits)
qed

lemma factorize_sweeps:
  assumes "factorize e g j = Some (Some ft)"
  shows "0 \<le> n_iter ft + 1 \<and> int (fit_sweeps ft) = sweeps_after (set_params j) (n_iter ft + 1)"
proof -
  define fs0 where "fs0 = \<lparr> chain = \<lparr> W = [], H = [], sigma_cur = sigma (set_params j), rng = g, sweeps = 0 \<rparr>,
                  last = None, tracker = [] \<rparr>"
  from assms obtain fs cobj iter where
    r: "run_all e (set_params j) (self_v (V (set_params j))) (n_run (set_params j)) fs0 = Some (Some fs)"
    and l: "last fs = Some (cobj, iter)" and ft: "n_iter ft = iter - 1" "fit_sweeps ft = sweeps (chain fs)"
    by (auto simp: factorize_def Let_def fs0_def split: option.splits)
  have "run_done (set_params j) fs0" by (simp add: run_done_def fs0_def)
  from run_all_sweeps [OF r this] l ft show ?thesis by (simp add: run_done_def)
qed

subsection \<open>The worked instance, evaluated\<close>

lemma demo_p:
  "set_params (demo_job extra ns) =
     \<lparr> V = [[Fin 3]], rank = 2, n_run = 1, max_iter = Some 30, min_residuals = None,
       test_conv = None,
       options = \<lparr> opt_alpha = None, opt_beta = None, opt_theta = None, opt_k = None,
         opt_sigma = Some (Fin 2), opt_skip = Some 1, opt_stride = None,
         opt_n_w = Some (True # False # extra), opt_n_h = Some [True, False],
         opt_n_sigma = Some ns, opt_track = None \<rparr>,
       alpha = [[Fin 0, Fin 0]], beta = [[Fin 0], [Fin 0]], theta = Fin 0, k = Fin 0,
       sigma = Fin 2, skip = 1, stride = 1, n_w = True # False # extra, n_h = [True, False],
       n_sigma = ns, track = False \<rparr>"
  by (simp add: set_params_def demo_job_def get_or_def truthy_int_def zeros_def nrows_def
      ncols_def numeral_2_eq_2)

lemma demo_fields:
  "V (set_params (demo_job extra ns)) = [[Fin 3]]"
  "rank (set_params (demo_job extra ns)) = 2"
  "alpha (set_params (demo_job extra ns)) = [[Fin 0, Fin 0]]"
  "beta (set_params (demo_job extra ns)) = [[Fin 0], [Fin 0]]"
  "theta (set_params (demo_job extra ns)) = Fin 0"
  "k (set_params (demo_job extra ns)) = Fin 0"
  "sigma (set_params (demo_job extra ns)) = Fin 2"
  "skip (set_params (demo_job extra ns)) = 1"
  "stride (set_params (demo_job extra ns)) = 1"
  "n_w (set_params (demo_job extra ns)) = True # False # extra"
  "n_h (set_params (demo_job extra ns)) = [True, False]"
  "n_sigma (set_params (demo_job extra ns)) = ns"
  "track (set_params (demo_job extra ns)) = False"
  "n_run (set_params (demo_job extra ns)) = 1"
  "max_iter (set_params (demo_job extra ns)) = Some 30"
  "min_residuals (set_params (demo_job extra ns)) = None"
  "test_conv (set_params (demo_job extra ns)) = None"
  by (simp_all add: demo_p)

lemma upt_demo: "[0..<2] = [0, Suc 0]" "[0..<Suc 0] = [0]" "[Suc 0..<2] = [Suc 0]"
  by (simp_all add: upt_rec)

lemmas mat_ev = dot_def tr_def ncols_def nrows_def column_def dotv_def vsum_def
  dot_mv_def cols_of_def col_at_def dot_vm_def row_at_def rows_of_def sop_div_def vsub_def
  upt_demo fl_arith

lemma demo_C: "dot [[Fin 1], [Fin 1]] (tr [[Fin 1], [Fin 1]]) = [[Fin 1, Fin 1], [Fin 1, Fin 1]]"
  by (simp add: mat_ev)

lemma demo_D: "dot [[Fin 3]] (tr [[Fin 1], [Fin 1]]) = [[Fin 3, Fin 3]]"
  by (simp add: mat_ev)

lemma demo_E: "dot (tr [[Fin 1, Fin 3]]) [[Fin 1, Fin 3]] = [[Fin 1, Fin 3], [Fin 3, Fin 9]]"
  by (simp add: mat_ev)

lemma demo_F: "dot (tr [[Fin 1, Fin 3]]) [[Fin 3]] = [[Fin 3], [Fin 9]]"
  by (simp add: mat_ev)

lemma demo_w_mean:
  "w_mean [[Fin 1, Fin 1]] [[Fin 1, Fin 1], [Fin 1, Fin 1]] [[Fin 3, Fin 3]]
     (nn_idx (Suc 0) 2) (Suc 0) = [Fin 2]"
  by (simp add: w_mean_def nn_idx_def mat_ev)

lemma demo_h_mean:
  "h_mean [[Fin 1], [Fin 1]] [[Fin 1, Fin 3], [Fin 3, Fin 9]] [[Fin 3], [Fin 9]]
     (nn_idx (Suc 0) 2) (Suc 0) = [Fin 0]"
  by (simp add: h_mean_def nn_idx_def mat_ev)

lemmas randr_ev = randr_def randr_draw_def clean_def stub_env_def vsub_def vadd_def vmul_def
  vdiv_def b2f_def fl_arith

lemma demo_randr_w: "randr stub_env g [Fin 2] (Fin 2) [Fin 0] = Some ([Fin 3], Suc g)"
  by (simp add: randr_ev)

lemma demo_randr_h: "randr stub_env g [Fin 0] (Fin (2 / 9)) [Fin 0] = Some ([Fin (1 / 3)], Suc g)"
  by (simp add: randr_ev real_sqrt_divide)

lemma demo_randr_h': "randr stub_env g [Fin 0] (Fin (1 / 18)) [Fin 0] = Some ([Fin (1 / 6)], Suc g)"
  by (simp add: randr_ev real_sqrt_divide)

lemma demo_w_loop:
  "w_loop stub_env (set_params (demo_job extra ns)) [[Fin 1, Fin 1], [Fin 1, Fin 1]]
     [[Fin 3, Fin 3]] [0..<2]
     \<lparr>W = [[Fin 1, Fin 1]], H = [[Fin 1], [Fin 1]], sigma_cur = Fin 2, rng = g, sweeps = c\<rparr>
   = Some \<lparr>W = [[Fin 1, Fin 3]], H = [[Fin 1], [Fin 1]], sigma_cur = Fin 2, rng = Suc g, sweeps = c\<rparr>"
  by (simp add: upt_demo w_step_def demo_fields idx_def getcol_def column_def demo_w_mean
      demo_randr_w nrows_def set_cell_def fl_arith)

lemma demo_h_loop:
  "h_loop stub_env (set_params (demo_job extra ns)) [[Fin 1, Fin 3], [Fin 3, Fin 9]]
     [[Fin 3], [Fin 9]] [0..<2]
     \<lparr>W = [[Fin 1, Fin 3]], H = [[Fin 1], [Fin 1]], sigma_cur = Fin 2, rng = g, sweeps = c\<rparr>
   = Some \<lparr>W = [[Fin 1, Fin 3]], H = [[Fin 1], [Fin (1 / 3)]], sigma_cur = Fin 2, rng = Suc g, sweeps = c\<rparr>"
  by (simp add: upt_demo h_step_def demo_fields idx_def getrow_def demo_h_mean
      randr_row_col_def demo_randr_h ncols_def set_cell_def fl_arith)

lemma demo_h_loop':
  "h_loop stub_env (set_params (demo_job extra ns)) [[Fin 1, Fin 3], [Fin 3, Fin 9]]
     [[Fin 3], [Fin 9]] [0..<2]
     \<lparr>W = [[Fin 1, Fin 3]], H = [[Fin 1], [Fin 1]], sigma_cur = Fin (1 / 2), rng = g, sweeps = c\<rparr>
   = Some \<lparr>W = [[Fin 1, Fin 3]], H = [[Fin 1], [Fin (1 / 6)]], sigma_cur = Fin (1 / 2), rng = Suc g, sweeps = c\<rparr>"
  by (simp add: upt_demo h_step_def demo_fields idx_def getrow_def demo_h_mean
      randr_row_col_def demo_randr_h' ncols_def set_cell_def fl_arith)

lemma demo_sweep:
  "sweep stub_env (set_params (demo_job extra True)) v
     \<lparr>W = [[Fin 1, Fin 1]], H = [[Fin 1], [Fin 1]], sigma_cur = Fin 2, rng = 0, sweeps = 0\<rparr>
   = Some \<lparr>W = [[Fin 1, Fin 3]], H = [[Fin 1], [Fin (1 / 3)]], sigma_cur = Fin 2, rng = 2, sweeps = 1\<rparr>"
  by (simp add: sweep_def demo_fields demo_C demo_D demo_w_loop sigma_step_def demo_E demo_F
     demo_h_loop)

lemma stub_gamma: "gamma stub_env g sh sc = Some (Fin 2, Suc g)"
  by (simp add: stub_env_def)

lemma stub_initialize:
  "initialize stub_env g Vm r opts = (([[Fin 1, Fin 1]], [[Fin 1], [Fin 1]]), g)"
  by (simp add: stub_env_def)

lemma demo_sweep':
  "sweep stub_env (set_params (demo_job extra False)) v
     \<lparr>W = [[Fin 1, Fin 1]], H = [[Fin 1], [Fin 1]], sigma_cur = Fin 2, rng = 0, sweeps = 0\<rparr>
   = Some \<lparr>W = [[Fin 1, Fin 3]], H = [[Fin 1], [Fin (1 / 6)]], sigma_cur = Fin (1 / 2), rng = 3, sweeps = 1\<rparr>"
  by (simp add: sweep_def demo_fields demo_C demo_D demo_w_loop sigma_step_def demo_E demo_F
     demo_h_loop' stub_gamma fl_arith)


lemma demo_obj0:
  "objective (set_params (demo_job extra ns))
     \<lparr>W = [[Fin 1, Fin 1]], H = [[Fin 1], [Fin 1]], sigma_cur = s, rng = g, sweeps = c\<rparr> = Fin 1"
  by (simp add: objective_def demo_fields msum_def sop_pow2_def msub_def mat_ev)

lemma demo_obj1:
  "objective (set_params (demo_job extra ns))
     \<lparr>W = [[Fin 1, Fin 3]], H = [[Fin 1], [Fin (1 / 3)]], sigma_cur = s, rng = g, sweeps = c\<rparr> = Fin 1"
  by (simp add: objective_def demo_fields msum_def sop_pow2_def msub_def mat_ev)

lemma demo_update:
  "update stub_env (set_params (demo_job extra True)) v 0
     \<lparr>W = [[Fin 1, Fin 1]], H = [[Fin 1], [Fin 1]], sigma_cur = Fin 2, rng = 0, sweeps = 0\<rparr>
   = Some \<lparr>W = [[Fin 1, Fin 3]], H = [[Fin 1], [Fin (1 / 3)]], sigma_cur = Fin 2, rng = 2, sweeps = 1\<rparr>"
  by (simp add: update_def n_sweeps_def demo_fields b2i_def demo_sweep)

lemma demo_update1:
  "update stub_env (set_params (demo_job extra True)) v 1
     \<lparr>W = [[Fin 1, Fin 1]], H = [[Fin 1], [Fin 1]], sigma_cur = Fin 2, rng = 0, sweeps = 0\<rparr>
   = Some \<lparr>W = [[Fin 1, Fin 3]], H = [[Fin 1], [Fin (1 / 3)]], sigma_cur = Fin 2, rng = 2, sweeps = 1\<rparr>"
  by (simp add: update_def n_sweeps_def demo_fields b2i_def demo_sweep)

lemma demo_run_loop:
  "run_loop stub_env (set_params (demo_job extra True)) v
     (Fin 1, Fin 1, 0,
      \<lparr>W = [[Fin 1, Fin 1]], H = [[Fin 1], [Fin 1]], sigma_cur = Fin 2, rng = 0, sweeps = 0\<rparr>)
   = Some (Some (Fin 1, 1,
      \<lparr>W = [[Fin 1, Fin 3]], H = [[Fin 1], [Fin (1 / 3)]], sigma_cur = Fin 2, rng = 2, sweeps = 1\<rparr>))"
  apply (subst run_loop.simps)
  apply (simp add: is_satisfied_def demo_fields truthy_int_def truthy_fl_def demo_update demo_obj1)
  apply (subst run_loop.simps)
  apply (simp add: is_satisfied_def demo_fields truthy_int_def truthy_fl_def fl_arith)
  done

lemma demo_factorize:
  "factorize stub_env 0 (demo_job extra True)
   = Some (Some \<lparr> fit_W = [[Fin 1, Fin 3]], fit_H = [[Fin 1], [Fin (1 / 3)]], fit_sigma = Fin 2,
        n_iter = 0, final_obj = Fin 1, fit_tracker = None, fit_sweeps = 1, fit_rng = 2 \<rparr>)"
  by (simp add: factorize_def demo_fields one_run_def stub_initialize demo_obj0 demo_run_loop
      Let_def)

subsection \<open>When the sampling loop stops\<close>

text \<open>
  Claim C2. The sampling loop of a run stops exactly when at least one of these holds, and
  continues otherwise: \<open>max_iter\<close> is configured and the iteration counter exceeds it;
  \<open>min_residuals\<close> is configured, the counter is positive and
  \<open>cobj - pobj \<le> min_residuals\<close>; the counter is positive and \<open>cobj \<ge> pobj\<close>. Stopping, the
  loop ends with the objective, the counter and the chain it has; continuing, it runs the
  update step and goes on with the counter increased by one. An option is configured when
  Python takes it as true, which is the test the code makes.
\<close>

theorem run_loop_stops_iff:
  "run_loop e p v (pobj, cobj, iter, st) =
     (if (truthy_int (max_iter p) \<and> the (max_iter p) < iter)
         \<or> (truthy_fl (min_residuals p) \<and> 0 < iter \<and> cobj - pobj \<le> the (min_residuals p))
         \<or> (0 < iter \<and> cobj \<ge> pobj)
      then Some (Some (cobj, iter, st))
      else (case update e p v iter st of
              None \<Rightarrow> Some None
            | Some st' \<Rightarrow>
                run_loop e p v
                  (cobj,
                   (if \<not> truthy_int (test_conv p) \<or> iter mod the (test_conv p) = 0
                    then objective p st' else cobj),
                   iter + 1, st')))"
  by (subst run_loop.simps) (auto simp: is_satisfied_def)

theorem run_loop_stops_iff_witness:
  "run_loop stub_env (set_params (demo_job [] True)) (Fin 1)
     (Fin 1, Fin 1, 0,
      \<lparr>W = [[Fin 1, Fin 1]], H = [[Fin 1], [Fin 1]], sigma_cur = Fin 2, rng = 0, sweeps = 0\<rparr>)
   = run_loop stub_env (set_params (demo_job [] True)) (Fin 1)
     (Fin 1, Fin 1, 1,
      \<lparr>W = [[Fin 1, Fin 3]], H = [[Fin 1], [Fin (1 / 3)]], sigma_cur = Fin 2, rng = 2, sweeps = 1\<rparr>)
   \<and> run_loop stub_env (set_params (demo_job [] True)) (Fin 1)
     (Fin 1, Fin 1, 1,
      \<lparr>W = [[Fin 1, Fin 3]], H = [[Fin 1], [Fin (1 / 3)]], sigma_cur = Fin 2, rng = 2, sweeps = 1\<rparr>)
   = Some (Some (Fin 1, 1,
      \<lparr>W = [[Fin 1, Fin 3]], H = [[Fin 1], [Fin (1 / 3)]], sigma_cur = Fin 2, rng = 2, sweeps = 1\<rparr>))"
proof -
  have a: "run_loop stub_env (set_params (demo_job [] True)) (Fin 1)
     (Fin 1, Fin 1, 0,
      \<lparr>W = [[Fin 1, Fin 1]], H = [[Fin 1], [Fin 1]], sigma_cur = Fin 2, rng = 0, sweeps = 0\<rparr>)
   = run_loop stub_env (set_params (demo_job [] True)) (Fin 1)
     (Fin 1, Fin 1, 1,
      \<lparr>W = [[Fin 1, Fin 3]], H = [[Fin 1], [Fin (1 / 3)]], sigma_cur = Fin 2, rng = 2, sweeps = 1\<rparr>)"
    by (subst run_loop_stops_iff)
       (simp add: demo_fields truthy_int_def truthy_fl_def demo_update demo_obj1)
  have b: "run_loop stub_env (set_params (demo_job [] True)) (Fin 1)
     (Fin 1, Fin 1, 1,
      \<lparr>W = [[Fin 1, Fin 3]], H = [[Fin 1], [Fin (1 / 3)]], sigma_cur = Fin 2, rng = 2, sweeps = 1\<rparr>)
   = Some (Some (Fin 1, 1,
      \<lparr>W = [[Fin 1, Fin 3]], H = [[Fin 1], [Fin (1 / 3)]], sigma_cur = Fin 2, rng = 2, sweeps = 1\<rparr>))"
    by (subst run_loop_stops_iff)
       (simp add: demo_fields truthy_int_def truthy_fl_def fl_arith)
  from a b show ?thesis by simp
qed

subsection \<open>The index list of the leave-one-out residual\<close>

text \<open>
  Claim C1 says that the conditional mean of column \<open>n\<close> of \<open>W\<close> (row \<open>n\<close> of \<open>H\<close>) leaves
  out exactly index \<open>n\<close>. The index list of lines 139 and 152 does not: for \<open>n = 0\<close> it is
  all of \<open>0, \<dots>, rank - 1\<close>, and for \<open>n \<ge> 1\<close> it leaves out \<open>n - 1\<close> and keeps \<open>n\<close>. With
  \<open>W = (1 2)\<close>, \<open>C = H H\<^sup>T\<close> and \<open>D = V H\<^sup>T\<close> for \<open>H = ((1 1) (1 2))\<close> and \<open>V = (6 1)\<close>, the mean
  the code passes for column 0 is \<open>-1/2\<close>, and the leave-one-out mean, over the index list
  \<open>[1]\<close>, is \<open>1/2\<close>.
\<close>

theorem nn_idx_keeps_own_index:
  "nn_idx 0 2 = [0, 1] \<and> nn_idx 1 3 = [1, 2] \<and> nn_idx 2 3 = [0, 2]
   \<and> w_mean [[Fin 1, Fin 2]] [[Fin 2, Fin 3], [Fin 3, Fin 5]] [[Fin 7, Fin 8]] (nn_idx 0 2) 0
       = [Fin (- 1 / 2)]
   \<and> w_mean [[Fin 1, Fin 2]] [[Fin 2, Fin 3], [Fin 3, Fin 5]] [[Fin 7, Fin 8]] [1] 0
       = [Fin (1 / 2)]"
  by (simp add: nn_idx_def w_mean_def mat_ev upt_rec)

subsection \<open>The two branches of the sampler\<close>

lemma stub_uniform: "uniform stub_env g = (Fin (1 / 2), Suc g)"
  by (simp add: stub_env_def)

lemma demo_randr2:
  "randr stub_env 0 [Fin 2, Fin (- 200)] (Fin 2) [Fin 0, Fin 0]
     = Some ([Fin 3, Fin (- (ln (1 / 2) / 100))], 2)"
  by (simp add: randr_ev numeral_2_eq_2)

text \<open>
  Claim C7. In the sampler, the candidate value of entry \<open>i\<close> is the exponential-tail draw
  \<open>- ln u / ((l s - m) / s)\<close> exactly when the standardized tilt
  \<open>A = (l s - m) / sqrt (2 s)\<close> of the entry is strictly greater than 26, and the inverse-CDF
  draw \<open>erfcinv (u R - 1\<^bsub>A<0\<^esub> (2 u + R - 2)) sqrt (2 s) + m - l s\<close> with \<open>R = erfc |A|\<close> for
  every other entry; \<open>u\<close> is the uniform draw of that entry. The value returned for the
  entry is the clean-up of this candidate.
\<close>

theorem randr_branches:
  assumes "randr e g m s l = Some (x, g')" and "i < length m"
  shows "randr_draw e m s l (fst (rand_n e g (length m))) ! i =
           (if tilt (m ! i) s (l ! i) > Fin 26
            then tail_draw (fst (rand_n e g (length m)) ! i) (m ! i) s (l ! i)
            else exact_draw e (fst (rand_n e g (length m)) ! i) (m ! i) s (l ! i))
         \<and> x ! i = clamp0 (randr_draw e m s l (fst (rand_n e g (length m))) ! i)"
proof -
  note r = randr_result [OF assms(1)]
  from randr_draw_nth [OF r(2) length_rand_n assms(2), of e s e g]
  show ?thesis using assms(2) by (simp add: r(1) length_randr_draw)
qed

theorem randr_branches_witness:
  "randr stub_env 0 [Fin 2, Fin (- 200)] (Fin 2) [Fin 0, Fin 0]
     = Some ([Fin 3, Fin (- (ln (1 / 2) / 100))], 2)
   \<and> (1::nat) < length [Fin 2, Fin (- 200)]
   \<and> tilt (Fin (- 200)) (Fin 2) (Fin 0) > Fin 26
   \<and> \<not> tilt (Fin 2) (Fin 2) (Fin 0) > Fin 26
   \<and> randr_draw stub_env [Fin 2, Fin (- 200)] (Fin 2) [Fin 0, Fin 0] [Fin (1 / 2), Fin (1 / 2)] ! 1
       = tail_draw (Fin (1 / 2)) (Fin (- 200)) (Fin 2) (Fin 0)
   \<and> randr_draw stub_env [Fin 2, Fin (- 200)] (Fin 2) [Fin 0, Fin 0] [Fin (1 / 2), Fin (1 / 2)] ! 0
       = exact_draw stub_env (Fin (1 / 2)) (Fin 2) (Fin 2) (Fin 0)
   \<and> [Fin 3, Fin (- (ln (1 / 2) / 100))] ! 1
       = clamp0 (tail_draw (Fin (1 / 2)) (Fin (- 200)) (Fin 2) (Fin 0))
   \<and> [Fin 3, Fin (- (ln (1 / 2) / 100))] ! 0
       = clamp0 (exact_draw stub_env (Fin (1 / 2)) (Fin 2) (Fin 2) (Fin 0))"
proof -
  have t: "tilt (Fin (- 200)) (Fin 2) (Fin 0) > Fin 26" "\<not> tilt (Fin 2) (Fin 2) (Fin 0) > Fin 26"
    by (simp_all add: tilt_def fl_arith)
  from randr_branches [OF demo_randr2, of 1] randr_branches [OF demo_randr2, of 0] t show ?thesis
    by (simp add: demo_randr2 stub_uniform)
qed

subsection \<open>Freezing\<close>

lemma demo_sweep_n:
  "sweep_n stub_env (set_params (demo_job extra True)) v 1
     \<lparr>W = [[Fin 1, Fin 1]], H = [[Fin 1], [Fin 1]], sigma_cur = Fin 2, rng = 0, sweeps = 0\<rparr>
   = Some \<lparr>W = [[Fin 1, Fin 3]], H = [[Fin 1], [Fin (1 / 3)]], sigma_cur = Fin 2, rng = 2, sweeps = 1\<rparr>"
  by (simp add: demo_sweep)

text \<open>
  Claim C8. For every configuration and every number \<open>c\<close> of sweeps: when \<open>n_w[i]\<close> is set,
  column \<open>i\<close> of \<open>W\<close> is the same before and after the sweeps; when \<open>n_h[i]\<close> is set, row
  \<open>i\<close> of \<open>H\<close> is the same; when \<open>n_sigma\<close> is set, the noise variance is the same.
\<close>

theorem freeze_frame:
  assumes "sweep_n e p v c st = Some st'"
  shows "(idx (n_w p) i = Some True \<longrightarrow> column (W st') i = column (W st) i)
    \<and> (idx (n_h p) i = Some True \<longrightarrow> getrow (H st') i = getrow (H st) i)
    \<and> (n_sigma p \<longrightarrow> sigma_cur st' = sigma_cur st)"
  using sweep_n_frame [OF assms, of i] by simp

theorem freeze_frame_witness:
  "sweep_n stub_env (set_params (demo_job [] True)) (Fin 1) 1
     \<lparr>W = [[Fin 1, Fin 1]], H = [[Fin 1], [Fin 1]], sigma_cur = Fin 2, rng = 0, sweeps = 0\<rparr>
   = Some \<lparr>W = [[Fin 1, Fin 3]], H = [[Fin 1], [Fin (1 / 3)]], sigma_cur = Fin 2, rng = 2, sweeps = 1\<rparr>
   \<and> idx (n_w (set_params (demo_job [] True))) 0 = Some True
   \<and> idx (n_h (set_params (demo_job [] True))) 0 = Some True
   \<and> n_sigma (set_params (demo_job [] True))
   \<and> column [[Fin 1, Fin 3]] 0 = column [[Fin 1, Fin 1]] 0
   \<and> getrow [[Fin 1], [Fin (1 / 3)]] 0 = getrow [[Fin 1], [Fin 1]] 0"
  using freeze_frame [OF demo_sweep_n [of "[]" "Fin 1"], of 0]
  by (simp add: demo_sweep demo_fields idx_def)

subsection \<open>Burn-in and stride\<close>

lemma run_loop_from_zero:
  assumes r: "run_loop e p v (pobj, cobj, 0, st) = Some (Some (cobj', iter', st'))"
  shows "if truthy_int (max_iter p) \<and> the (max_iter p) < 0 then iter' = 0 \<and> st' = st
         else 1 \<le> iter'
              \<and> (\<exists>st1. update e p v 0 st = Some st1
                        \<and> int (sweeps st1) = int (sweeps st) + max 0 (skip p))
              \<and> int (sweeps st') = int (sweeps st) + max 0 (skip p) + (iter' - 1) * max 0 (stride p)"
proof (cases "truthy_int (max_iter p) \<and> the (max_iter p) < 0")
  case True
  then have "\<not> is_satisfied p pobj cobj 0" by (simp add: is_satisfied_def)
  with r have "iter' = 0 \<and> st' = st" by (subst (asm) run_loop.simps) simp
  with True show ?thesis by simp
next
  case False
  then have s: "is_satisfied p pobj cobj 0" by (auto simp: is_satisfied_def)
  with r obtain st1 c1 where u: "update e p v 0 st = Some st1"
    and r1: "run_loop e p v (cobj, c1, 1, st1) = Some (Some (cobj', iter', st'))"
    by (subst (asm) run_loop.simps) (auto split: option.splits)
  from update_sweeps [OF u] have b: "int (sweeps st1) = int (sweeps st) + max 0 (skip p)" by simp
  have "1 \<le> iter' \<and> int (sweeps st') = int (sweeps st) + max 0 (skip p) + (iter' - 1) * max 0 (stride p)"
  proof (rule run_loop_inv [OF r1, where Inv = "\<lambda>it s. 1 \<le> it
        \<and> int (sweeps s) = int (sweeps st) + max 0 (skip p) + (it - 1) * max 0 (stride p)"])
    show "1 \<le> (1::int) \<and> int (sweeps st1) = int (sweeps st) + max 0 (skip p) + (1 - 1) * max 0 (stride p)"
      using b by simp
  next
    fix it s s'
    assume a: "1 \<le> it \<and> int (sweeps s) = int (sweeps st) + max 0 (skip p) + (it - 1) * max 0 (stride p)"
      and u': "update e p v it s = Some s'"
    from update_sweeps [OF u'] a
    show "1 \<le> it + 1 \<and> int (sweeps s') = int (sweeps st) + max 0 (skip p) + (it + 1 - 1) * max 0 (stride p)"
      by (auto simp: algebra_simps)
  qed
  with False u b show ?thesis by auto
qed

lemma demo_cap_fields:
  "V (set_params ((demo_job [] True)\<lparr>max_iter := Some (- 1)\<rparr>)) = [[Fin 3]]"
  "rank (set_params ((demo_job [] True)\<lparr>max_iter := Some (- 1)\<rparr>)) = 2"
  "n_run (set_params ((demo_job [] True)\<lparr>max_iter := Some (- 1)\<rparr>)) = 1"
  "options (set_params ((demo_job [] True)\<lparr>max_iter := Some (- 1)\<rparr>)) = options (demo_job [] True)"
  "sigma (set_params ((demo_job [] True)\<lparr>max_iter := Some (- 1)\<rparr>)) = Fin 2"
  "skip (set_params ((demo_job [] True)\<lparr>max_iter := Some (- 1)\<rparr>)) = 1"
  "track (set_params ((demo_job [] True)\<lparr>max_iter := Some (- 1)\<rparr>)) = False"
  "max_iter (set_params ((demo_job [] True)\<lparr>max_iter := Some (- 1)\<rparr>)) = Some (- 1)"
  by (simp_all add: set_params_def demo_job_def get_or_def truthy_int_def)

lemma demo_cap_obj0:
  "objective (set_params ((demo_job [] True)\<lparr>max_iter := Some (- 1)\<rparr>))
     \<lparr>W = [[Fin 1, Fin 1]], H = [[Fin 1], [Fin 1]], sigma_cur = s, rng = g, sweeps = c\<rparr> = Fin 1"
  by (simp add: objective_def demo_cap_fields msum_def sop_pow2_def msub_def mat_ev)

lemma demo_cap_run_loop:
  "run_loop stub_env (set_params ((demo_job [] True)\<lparr>max_iter := Some (- 1)\<rparr>)) v
     (Fin 1, Fin 1, 0,
      \<lparr>W = [[Fin 1, Fin 1]], H = [[Fin 1], [Fin 1]], sigma_cur = Fin 2, rng = 0, sweeps = 0\<rparr>)
   = Some (Some (Fin 1, 0,
      \<lparr>W = [[Fin 1, Fin 1]], H = [[Fin 1], [Fin 1]], sigma_cur = Fin 2, rng = 0, sweeps = 0\<rparr>))"
  by (subst run_loop.simps) (simp add: is_satisfied_def demo_cap_fields truthy_int_def)

lemma demo_cap_factorize:
  "factorize stub_env 0 ((demo_job [] True)\<lparr>max_iter := Some (- 1)\<rparr>)
   = Some (Some \<lparr> fit_W = [[Fin 1, Fin 1]], fit_H = [[Fin 1], [Fin 1]], fit_sigma = Fin 2,
        n_iter = - 1, final_obj = Fin 1, fit_tracker = None, fit_sweeps = 0, fit_rng = 0 \<rparr>)"
  by (simp add: factorize_def demo_cap_fields one_run_def stub_initialize demo_cap_obj0
      demo_cap_run_loop Let_def)

text \<open>
  Claim C6 says that each run performs \<open>skip\<close> burn-in sweeps before its first convergence
  evaluation. In the worked instance with \<open>max_iter = -1\<close>, which \<^verbatim>\<open>_set_params\<close> keeps,
  \<open>skip\<close> is 1 and the run ends with no sweep executed.
\<close>

theorem negative_cap_counterexample:
  "skip (set_params ((demo_job [] True)\<lparr>max_iter := Some (- 1)\<rparr>)) = 1
   \<and> map_option (map_option (\<lambda>ft. (n_iter ft, fit_sweeps ft)))
        (factorize stub_env 0 ((demo_job [] True)\<lparr>max_iter := Some (- 1)\<rparr>))
      = Some (Some (- 1, 0))"
  by (simp add: demo_cap_fields demo_cap_factorize)

text \<open>
  Claim C6, amended. A call of the update step with iteration counter 0 executes exactly
  \<open>skip\<close> sweeps, and a call with a counter greater than 0 executes exactly \<open>stride\<close> sweeps
  (no sweep when the number is negative). A run whose \<open>max_iter\<close> is not negative begins with
  the update step at counter 0, so it makes its \<open>skip\<close> burn-in sweeps before the first
  comparison of objectives, and \<open>stride\<close> sweeps in every later step: when its loop ends at
  counter \<open>iter\<close> it has executed \<open>skip + (iter - 1) \<sqdot> stride\<close> sweeps. A run with a negative
  \<open>max_iter\<close> makes no update step and no sweep.
\<close>

theorem burn_in_then_stride:
  "(update e p v iter st = Some st' \<and> 0 \<le> iter \<longrightarrow>
      update e p v iter st = sweep_n e p v (nat (if iter = 0 then skip p else stride p)) st
      \<and> int (sweeps st') = int (sweeps st) + max 0 (if iter = 0 then skip p else stride p)
      \<and> (0 \<le> skip p \<and> iter = 0 \<longrightarrow> int (sweeps st') = int (sweeps st) + skip p)
      \<and> (0 \<le> stride p \<and> 0 < iter \<longrightarrow> int (sweeps st') = int (sweeps st) + stride p))
   \<and> (run_loop e p v (pobj, cobj, 0, rs) = Some (Some (cobj', iter', rs')) \<longrightarrow>
        (if truthy_int (max_iter p) \<and> the (max_iter p) < 0 then iter' = 0 \<and> rs' = rs
         else 1 \<le> iter'
              \<and> (\<exists>st1. update e p v 0 rs = Some st1
                        \<and> int (sweeps st1) = int (sweeps rs) + max 0 (skip p))
              \<and> int (sweeps rs')
                  = int (sweeps rs) + max 0 (skip p) + (iter' - 1) * max 0 (stride p)))"
proof -
  have 1: "update e p v iter st = Some st' \<and> 0 \<le> iter \<longrightarrow>
      update e p v iter st = sweep_n e p v (nat (if iter = 0 then skip p else stride p)) st
      \<and> int (sweeps st') = int (sweeps st) + max 0 (if iter = 0 then skip p else stride p)
      \<and> (0 \<le> skip p \<and> iter = 0 \<longrightarrow> int (sweeps st') = int (sweeps st) + skip p)
      \<and> (0 \<le> stride p \<and> 0 < iter \<longrightarrow> int (sweeps st') = int (sweeps st) + stride p)"
    using update_sweeps [of e p v iter st st']
    by (auto simp: update_def n_sweeps_def b2i_def)
  have 2: "run_loop e p v (pobj, cobj, 0, rs) = Some (Some (cobj', iter', rs')) \<longrightarrow>
        (if truthy_int (max_iter p) \<and> the (max_iter p) < 0 then iter' = 0 \<and> rs' = rs
         else 1 \<le> iter'
              \<and> (\<exists>st1. update e p v 0 rs = Some st1
                        \<and> int (sweeps st1) = int (sweeps rs) + max 0 (skip p))
              \<and> int (sweeps rs')
                  = int (sweeps rs) + max 0 (skip p) + (iter' - 1) * max 0 (stride p))"
    using run_loop_from_zero [of e p v pobj cobj rs cobj' iter' rs'] by (rule impI)
  show ?thesis by (rule conjI [OF 1 2])
qed

theorem burn_in_then_stride_witness:
  "update stub_env (set_params (demo_job [] True)) (Fin 1) 0
     \<lparr>W = [[Fin 1, Fin 1]], H = [[Fin 1], [Fin 1]], sigma_cur = Fin 2, rng = 0, sweeps = 0\<rparr>
   = Some \<lparr>W = [[Fin 1, Fin 3]], H = [[Fin 1], [Fin (1 / 3)]], sigma_cur = Fin 2, rng = 2, sweeps = 1\<rparr>
   \<and> update stub_env (set_params (demo_job [] True)) (Fin 1) 1
     \<lparr>W = [[Fin 1, Fin 1]], H = [[Fin 1], [Fin 1]], sigma_cur = Fin 2, rng = 0, sweeps = 0\<rparr>
   = Some \<lparr>W = [[Fin 1, Fin 3]], H = [[Fin 1], [Fin (1 / 3)]], sigma_cur = Fin 2, rng = 2, sweeps = 1\<rparr>
   \<and> skip (set_params (demo_job [] True)) = 1
   \<and> stride (set_params (demo_job [] True)) = 1
   \<and> run_loop stub_env (set_params (demo_job [] True)) (Fin 1)
        (Fin 1, Fin 1, 0,
         \<lparr>W = [[Fin 1, Fin 1]], H = [[Fin 1], [Fin 1]], sigma_cur = Fin 2, rng = 0, sweeps = 0\<rparr>)
      = Some (Some (Fin 1, 1,
         \<lparr>W = [[Fin 1, Fin 3]], H = [[Fin 1], [Fin (1 / 3)]], sigma_cur = Fin 2, rng = 2, sweeps = 1\<rparr>))
   \<and> \<not> (truthy_int (max_iter (set_params (demo_job [] True)))
          \<and> the (max_iter (set_params (demo_job [] True))) < 0)
   \<and> int (sweeps \<lparr>W = [[Fin 1, Fin 3]], H = [[Fin 1], [Fin (1 / 3)]], sigma_cur = Fin 2,
                   rng = (2::nat), sweeps = 1\<rparr>) = 0 + max 0 1 + (1 - 1) * max 0 1
   \<and> run_loop stub_env (set_params ((demo_job [] True)\<lparr>max_iter := Some (- 1)\<rparr>)) (Fin 1)
        (Fin 1, Fin 1, 0,
         \<lparr>W = [[Fin 1, Fin 1]], H = [[Fin 1], [Fin 1]], sigma_cur = Fin 2, rng = 0, sweeps = 0\<rparr>)
      = Some (Some (Fin 1, 0,
         \<lparr>W = [[Fin 1, Fin 1]], H = [[Fin 1], [Fin 1]], sigma_cur = Fin 2, rng = 0, sweeps = 0\<rparr>))
   \<and> truthy_int (max_iter (set_params ((demo_job [] True)\<lparr>max_iter := Some (- 1)\<rparr>)))
   \<and> the (max_iter (set_params ((demo_job [] True)\<lparr>max_iter := Some (- 1)\<rparr>))) < 0"
proof -
  let ?st0 = "\<lparr>W = [[Fin 1, Fin 1]], H = [[Fin 1], [Fin 1]], sigma_cur = Fin 2, rng = 0::nat, sweeps = 0\<rparr>"
  let ?st1 = "\<lparr>W = [[Fin 1, Fin 3]], H = [[Fin 1], [Fin (1 / 3)]], sigma_cur = Fin 2, rng = 2::nat, sweeps = 1\<rparr>"
  note a = burn_in_then_stride [where e = stub_env and p = "set_params (demo_job [] True)"
      and v = "Fin 1" and iter = 0 and st = ?st0 and st' = ?st1 and pobj = "Fin 1" and cobj = "Fin 1"
      and rs = ?st0 and cobj' = "Fin 1" and iter' = 1 and rs' = ?st1]
  note b = burn_in_then_stride [where e = stub_env
      and p = "set_params ((demo_job [] True)\<lparr>max_iter := Some (- 1)\<rparr>)"
      and v = "Fin 1" and iter = 1 and st = ?st0 and st' = ?st1 and pobj = "Fin 1" and cobj = "Fin 1"
      and rs = ?st0 and cobj' = "Fin 1" and iter' = 0 and rs' = ?st0]
  from a b demo_update [of "[]" "Fin 1"] demo_update1 [of "[]" "Fin 1"]
    demo_run_loop [of "[]" "Fin 1"] demo_cap_run_loop [of "Fin 1"]
  show ?thesis
    by (simp add: demo_fields demo_cap_fields truthy_int_def)
qed

subsection \<open>The reported sweep count\<close>

text \<open>
  Claim C9 says that \<open>n_iter\<close> is the number of sweeps executed in the final run. In the
  worked instance (one burn-in sweep) the run executes one sweep and reports \<open>n_iter = 0\<close>.
\<close>

theorem n_iter_counterexample:
  "map_option (map_option (\<lambda>ft. (n_iter ft, fit_sweeps ft)))
     (factorize stub_env 0 (demo_job [] True)) = Some (Some (0, 1))"
  by (simp add: demo_factorize)

text \<open>
  Claim C9, amended. Every call of \<^verbatim>\<open>factorize\<close> ends, with a fitted model or with an
  exception: no run loops forever, and a run whose counter passes \<open>max_iter\<close> leaves its loop
  normally, with the state it has reached. When \<^verbatim>\<open>factorize\<close> returns a model, the \<open>n_iter\<close>
  it reports is the loop counter of the final run minus one, that is the number of update
  steps after the burn-in step; the sweeps executed in that run number
  \<open>skip + n_iter \<sqdot> stride\<close> (negative \<open>skip\<close> or \<open>stride\<close> counting as 0), and none when
  no update step ran (\<open>n_iter = -1\<close>).
\<close>

theorem n_iter_reported:
  "(\<exists>r. factorize e g j = Some r)
   \<and> (truthy_int (max_iter p) \<and> the (max_iter p) < iter \<longrightarrow>
        run_loop e p v (pobj, cobj, iter, st) = Some (Some (cobj, iter, st)))
   \<and> (factorize e g j = Some (Some ft) \<longrightarrow>
        - 1 \<le> n_iter ft
        \<and> int (fit_sweeps ft) =
            (if n_iter ft < 0 then 0
             else max 0 (skip (set_params j)) + n_iter ft * max 0 (stride (set_params j))))"
proof (intro conjI impI)
  show "\<exists>r. factorize e g j = Some r" by (rule factorize_terminates)
next
  assume "truthy_int (max_iter p) \<and> the (max_iter p) < iter"
  then have "\<not> is_satisfied p pobj cobj iter" by (simp add: is_satisfied_def)
  then show "run_loop e p v (pobj, cobj, iter, st) = Some (Some (cobj, iter, st))"
    by (subst run_loop.simps) simp
next
  assume "factorize e g j = Some (Some ft)"
  from factorize_sweeps [OF this] show "- 1 \<le> n_iter ft" by simp
next
  assume "factorize e g j = Some (Some ft)"
  from factorize_sweeps [OF this]
  show "int (fit_sweeps ft) =
            (if n_iter ft < 0 then 0
             else max 0 (skip (set_params j)) + n_iter ft * max 0 (stride (set_params j)))"
    by (auto simp: sweeps_after_def)
qed

theorem n_iter_reported_witness:
  "factorize stub_env 0 (demo_job [] True)
   = Some (Some \<lparr> fit_W = [[Fin 1, Fin 3]], fit_H = [[Fin 1], [Fin (1 / 3)]], fit_sigma = Fin 2,
        n_iter = 0, final_obj = Fin 1, fit_tracker = None, fit_sweeps = 1, fit_rng = 2 \<rparr>)
   \<and> int 1 = max 0 (skip (set_params (demo_job [] True)))
              + 0 * max 0 (stride (set_params (demo_job [] True)))
   \<and> truthy_int (max_iter (set_params (demo_job [] True)))
   \<and> the (max_iter (set_params (demo_job [] True))) < 31
   \<and> run_loop stub_env (set_params (demo_job [] True)) (Fin 1)
        (Fin 2, Fin 1, 31,
         \<lparr>W = [[Fin 1, Fin 3]], H = [[Fin 1], [Fin (1 / 3)]], sigma_cur = Fin 2, rng = 2, sweeps = 1\<rparr>)
      = Some (Some (Fin 1, 31,
         \<lparr>W = [[Fin 1, Fin 3]], H = [[Fin 1], [Fin (1 / 3)]], sigma_cur = Fin 2, rng = 2, sweeps = 1\<rparr>))"
  using n_iter_reported [where e = stub_env and g = 0 and j = "demo_job [] True"
      and p = "set_params (demo_job [] True)" and iter = 31 and v = "Fin 1"
      and pobj = "Fin 2" and cobj = "Fin 1"
      and st = "\<lparr>W = [[Fin 1, Fin 3]], H = [[Fin 1], [Fin (1 / 3)]], sigma_cur = Fin 2, rng = 2, sweeps = 1\<rparr>"
      and ft = "\<lparr> fit_W = [[Fin 1, Fin 3]], fit_H = [[Fin 1], [Fin (1 / 3)]], fit_sigma = Fin 2,
        n_iter = 0, final_obj = Fin 1, fit_tracker = None, fit_sweeps = 1, fit_rng = 2 \<rparr>"]
  by (simp add: demo_factorize demo_fields truthy_int_def)

subsection \<open>Resampling the noise variance\<close>

lemma sweep_n_add:
  "sweep_n e p v a st = Some s1 \<Longrightarrow> sweep_n e p v b s1 = Some s2
   \<Longrightarrow> sweep_n e p v (a + b) st = Some s2"
  by (induction a arbitrary: st) (auto split: bind_splits)

lemma run_loop_sweep_n:
  assumes "run_loop e p v (pobj, cobj, iter, st) = Some (Some (cobj', iter', st'))"
  shows "\<exists>c. sweep_n e p v c st = Some st'"
proof (rule run_loop_inv [OF assms, where Inv = "\<lambda>it s. \<exists>c. sweep_n e p v c st = Some s"])
  show "\<exists>c. sweep_n e p v c st = Some st" by (rule exI [of _ 0]) simp
next
  fix it s s'
  assume "\<exists>c. sweep_n e p v c st = Some s" and "update e p v it s = Some s'"
  then show "\<exists>c. sweep_n e p v c st = Some s'"
    by (auto simp: update_def dest: sweep_n_add)
qed

lemma one_run_sweep_n:
  assumes "one_run e p v fs = Some (Some fs')"
  shows "\<exists>c. sweep_n e p v c (seeded e p (rng (chain fs)) (sigma_cur (chain fs))) = Some (chain fs')"
proof -
  obtain W0 H0 g1 where i: "initialize e (rng (chain fs)) (V p) (rank p) (options p) = ((W0, H0), g1)"
    by (metis prod.exhaust)
  define st0 where "st0 = (chain fs)\<lparr>W := W0, H := H0, rng := g1, sweeps := 0\<rparr>"
  have s: "st0 = seeded e p (rng (chain fs)) (sigma_cur (chain fs))"
    by (simp add: st0_def seeded_def i)
  from assms i obtain cobj iter st where
    r: "run_loop e p v (objective p st0, objective p st0, 0, st0) = Some (Some (cobj, iter, st))"
    and fs': "chain fs' = st"
    by (auto simp: one_run_def Let_def st0_def split: option.splits)
  from run_loop_sweep_n [OF r] fs' s show ?thesis by simp
qed

lemma run_all_sweep_n:
  "run_all e p v n fs = Some (Some fs') \<Longrightarrow>
   (last fs \<noteq> None \<longrightarrow> (\<exists>g0 s0 c. sweep_n e p v c (seeded e p g0 s0) = Some (chain fs))) \<Longrightarrow>
   (last fs' \<noteq> None \<longrightarrow> (\<exists>g0 s0 c. sweep_n e p v c (seeded e p g0 s0) = Some (chain fs')))"
proof (induction n arbitrary: fs)
  case 0
  then show ?case by simp
next
  case (Suc n)
  then obtain fs1 where 1: "one_run e p v fs = Some (Some fs1)"
    "run_all e p v n fs1 = Some (Some fs')"
    by (auto split: option.splits)
  from one_run_sweep_n [OF 1(1)]
  have "\<exists>g0 s0 c. sweep_n e p v c (seeded e p g0 s0) = Some (chain fs1)" by blast
  with Suc.IH [OF 1(2)] show ?case by simp
qed

lemma factorize_sweep_n:
  assumes "factorize e g j = Some (Some ft)"
  shows "\<exists>g0 s0 stf.
      sweep_n e (set_params j) (msum (multiply (V j) (V j)) / Fin 2) (fit_sweeps ft)
        (seeded e (set_params j) g0 s0) = Some stf
      \<and> fit_W ft = W stf \<and> fit_H ft = H stf \<and> fit_sigma ft = sigma_cur stf"
proof -
  define fs0 where "fs0 = \<lparr> chain = \<lparr> W = [], H = [], sigma_cur = sigma (set_params j), rng = g, sweeps = 0 \<rparr>,
                  last = None, tracker = [] \<rparr>"
  have V: "V (set_params j) = V j" by (simp add: set_params_def)
  from assms obtain fs cobj iter where
    r: "run_all e (set_params j) (self_v (V (set_params j))) (n_run (set_params j)) fs0 = Some (Some fs)"
    and l: "last fs = Some (cobj, iter)"
    and ft: "fit_W ft = W (chain fs)" "fit_H ft = H (chain fs)" "fit_sigma ft = sigma_cur (chain fs)"
      "fit_sweeps ft = sweeps (chain fs)"
    by (auto simp: factorize_def Let_def fs0_def split: option.splits)
  from run_all_sweep_n [OF r] l obtain g0 s0 c where
    c: "sweep_n e (set_params j) (self_v (V (set_params j))) c (seeded e (set_params j) g0 s0)
          = Some (chain fs)"
    by (auto simp: fs0_def)
  from sweep_n_sweeps [OF c] have "sweeps (chain fs) = c" by (simp add: seeded_def)
  with c ft V show ?thesis by (auto simp: self_v_def)
qed

text \<open>
  Claim C5. In a sweep in which the noise variance is not frozen, it is resampled exactly
  once, after the loop over the columns of \<open>W\<close> (which leaves it unchanged) and before \<open>E\<close>,
  \<open>F\<close> and the loop over the rows of \<open>H\<close>: it becomes the reciprocal of one Gamma draw with
  shape \<open>(m n)/2 + 1 + k\<close> and scale \<open>1 / (theta + v + \<langle>W, W C - 2 D\<rangle> / 2)\<close>, where \<open>W\<close> is
  the basis after its columns were updated and \<open>C\<close>, \<open>D\<close> are the statistics computed at the
  start of the sweep. The \<open>v\<close> of every sweep is \<open>\<parallel>V\<parallel>\<^sup>2 / 2\<close>, computed by \<^verbatim>\<open>factorize\<close> from
  the target alone: the fitted model it returns is the result of sweeps with that \<open>v\<close>, from
  the seeded chain of the final run.
\<close>

theorem sigma_resampled_once:
  "(sweep e p v st = Some st' \<and> \<not> n_sigma p \<longrightarrow>
      (\<exists>st1 gm g1 st3.
          w_loop e p (dot (H st) (tr (H st))) (dot (V p) (tr (H st))) [0..<rank p] st = Some st1
        \<and> sigma_cur st1 = sigma_cur st
        \<and> gamma e (rng st1)
             (Fin (real (nrows (V p) * ncols (V p))) / Fin 2 + Fin 1 + k p)
             (Fin 1 / (theta p + v
                       + msum (multiply (W st1)
                            (msub (dot (W st1) (dot (H st) (tr (H st))))
                                  (mscale (Fin 2) (dot (V p) (tr (H st)))))) / Fin 2))
           = Some (gm, g1)
        \<and> h_loop e p (dot (tr (W st1)) (W st1)) (dot (tr (W st1)) (V p)) [0..<rank p]
             (st1\<lparr>sigma_cur := Fin 1 / gm, rng := g1\<rparr>) = Some st3
        \<and> st' = st3\<lparr>sweeps := Suc (sweeps st3)\<rparr>
        \<and> sigma_cur st' = Fin 1 / gm))
   \<and> (factorize e g j = Some (Some ft) \<longrightarrow>
        (\<exists>g0 s0 stf.
            sweep_n e (set_params j) (msum (multiply (V j) (V j)) / Fin 2) (fit_sweeps ft)
              (seeded e (set_params j) g0 s0) = Some stf
          \<and> fit_W ft = W stf \<and> fit_H ft = H stf \<and> fit_sigma ft = sigma_cur stf))"
proof (intro conjI impI)
  assume a: "sweep e p v st = Some st' \<and> \<not> n_sigma p"
  then obtain st1 st2 st3 where
    1: "w_loop e p (dot (H st) (tr (H st))) (dot (V p) (tr (H st))) [0..<rank p] st = Some st1"
    and 2: "sigma_step e p v (dot (H st) (tr (H st))) (dot (V p) (tr (H st))) st1 = Some st2"
    and 3: "h_loop e p (dot (tr (W st2)) (W st2)) (dot (tr (W st2)) (V p)) [0..<rank p] st2 = Some st3"
    and 4: "st' = st3\<lparr>sweeps := Suc (sweeps st3)\<rparr>"
    by (auto simp: sweep_def Let_def split: bind_splits)
  from 2 a obtain gm g1 where
    g: "gamma e (rng st1) (gamma_shape p)
          (gamma_scale p v (W st1) (dot (H st) (tr (H st))) (dot (V p) (tr (H st))))
        = Some (gm, g1)"
    and st2: "st2 = st1\<lparr>sigma_cur := Fin 1 / gm, rng := g1\<rparr>"
    by (auto simp: sigma_step_def split: bind_splits if_splits)
  from w_loop_frame [OF 1] have s1: "sigma_cur st1 = sigma_cur st" by simp
  from h_loop_frame [OF 3] st2 have s3: "sigma_cur st3 = Fin 1 / gm" by simp
  from 1 s1 g 3 4 s3 st2
  show "\<exists>st1 gm g1 st3.
          w_loop e p (dot (H st) (tr (H st))) (dot (V p) (tr (H st))) [0..<rank p] st = Some st1
        \<and> sigma_cur st1 = sigma_cur st
        \<and> gamma e (rng st1)
             (Fin (real (nrows (V p) * ncols (V p))) / Fin 2 + Fin 1 + k p)
             (Fin 1 / (theta p + v
                       + msum (multiply (W st1)
                            (msub (dot (W st1) (dot (H st) (tr (H st))))
                                  (mscale (Fin 2) (dot (V p) (tr (H st)))))) / Fin 2))
           = Some (gm, g1)
        \<and> h_loop e p (dot (tr (W st1)) (W st1)) (dot (tr (W st1)) (V p)) [0..<rank p]
             (st1\<lparr>sigma_cur := Fin 1 / gm, rng := g1\<rparr>) = Some st3
        \<and> st' = st3\<lparr>sweeps := Suc (sweeps st3)\<rparr>
        \<and> sigma_cur st' = Fin 1 / gm"
    by (auto simp: gamma_shape_def gamma_scale_def)
next
  assume "factorize e g j = Some (Some ft)"
  from factorize_sweep_n [OF this]
  show "\<exists>g0 s0 stf.
            sweep_n e (set_params j) (msum (multiply (V j) (V j)) / Fin 2) (fit_sweeps ft)
              (seeded e (set_params j) g0 s0) = Some stf
          \<and> fit_W ft = W stf \<and> fit_H ft = H stf \<and> fit_sigma ft = sigma_cur stf" .
qed

theorem sigma_resampled_once_witness:
  "sweep stub_env (set_params (demo_job [] False)) (Fin 9 / Fin 2)
     \<lparr>W = [[Fin 1, Fin 1]], H = [[Fin 1], [Fin 1]], sigma_cur = Fin 2, rng = 0, sweeps = 0\<rparr>
   = Some \<lparr>W = [[Fin 1, Fin 3]], H = [[Fin 1], [Fin (1 / 6)]], sigma_cur = Fin (1 / 2), rng = 3, sweeps = 1\<rparr>
   \<and> \<not> n_sigma (set_params (demo_job [] False))
   \<and> (\<exists>gm g1. gamma stub_env (Suc 0)
         (Fin (real (nrows [[Fin 3]] * ncols [[Fin 3]])) / Fin 2 + Fin 1 + Fin 0)
         (Fin 1 / (Fin 0 + Fin 9 / Fin 2
                   + msum (multiply [[Fin 1, Fin 3]]
                        (msub (dot [[Fin 1, Fin 3]] [[Fin 1, Fin 1], [Fin 1, Fin 1]])
                              (mscale (Fin 2) [[Fin 3, Fin 3]]))) / Fin 2))
         = Some (gm, g1) \<and> Fin (1 / 2) = Fin 1 / gm)
   \<and> factorize stub_env 0 (demo_job [] True)
      = Some (Some \<lparr> fit_W = [[Fin 1, Fin 3]], fit_H = [[Fin 1], [Fin (1 / 3)]], fit_sigma = Fin 2,
        n_iter = 0, final_obj = Fin 1, fit_tracker = None, fit_sweeps = 1, fit_rng = 2 \<rparr>)
   \<and> msum (multiply (V (demo_job [] True)) (V (demo_job [] True))) / Fin 2 = Fin (9 / 2)
   \<and> (\<exists>g0 s0 stf.
         sweep_n stub_env (set_params (demo_job [] True)) (Fin (9 / 2)) 1
           (seeded stub_env (set_params (demo_job [] True)) g0 s0) = Some stf
         \<and> [[Fin 1, Fin 3]] = W stf \<and> [[Fin 1], [Fin (1 / 3)]] = H stf \<and> Fin 2 = sigma_cur stf)"
proof -
  note t = sigma_resampled_once [where e = stub_env and p = "set_params (demo_job [] False)"
      and v = "Fin 9 / Fin 2"
      and st = "\<lparr>W = [[Fin 1, Fin 1]], H = [[Fin 1], [Fin 1]], sigma_cur = Fin 2, rng = 0, sweeps = 0\<rparr>"
      and st' = "\<lparr>W = [[Fin 1, Fin 3]], H = [[Fin 1], [Fin (1 / 6)]], sigma_cur = Fin (1 / 2), rng = 3, sweeps = 1\<rparr>"
      and g = 0 and j = "demo_job [] True"
      and ft = "\<lparr> fit_W = [[Fin 1, Fin 3]], fit_H = [[Fin 1], [Fin (1 / 3)]], fit_sigma = Fin 2,
        n_iter = 0, final_obj = Fin 1, fit_tracker = None, fit_sweeps = 1, fit_rng = 2 \<rparr>"]
  have v: "msum (multiply (V (demo_job [] True)) (V (demo_job [] True))) / Fin 2 = Fin (9 / 2)"
    by (simp add: demo_job_def msum_def multiply_def vsum_def fl_arith)
  from t [THEN conjunct1] demo_sweep' [of "[]" "Fin 9 / Fin 2"]
  have 1: "\<exists>gm g1. gamma stub_env (Suc 0)
         (Fin (real (nrows [[Fin 3]] * ncols [[Fin 3]])) / Fin 2 + Fin 1 + Fin 0)
         (Fin 1 / (Fin 0 + Fin 9 / Fin 2
                   + msum (multiply [[Fin 1, Fin 3]]
                        (msub (dot [[Fin 1, Fin 3]] [[Fin 1, Fin 1], [Fin 1, Fin 1]])
                              (mscale (Fin 2) [[Fin 3, Fin 3]]))) / Fin 2))
         = Some (gm, g1) \<and> Fin (1 / 2) = Fin 1 / gm"
    by (simp add: demo_fields demo_C demo_D demo_w_loop stub_gamma fl_arith)
  from t [THEN conjunct2] demo_factorize [of "[]"] v
  have 2: "\<exists>g0 s0 stf.
         sweep_n stub_env (set_params (demo_job [] True)) (Fin (9 / 2)) 1
           (seeded stub_env (set_params (demo_job [] True)) g0 s0) = Some stf
         \<and> [[Fin 1, Fin 3]] = W stf \<and> [[Fin 1], [Fin (1 / 3)]] = H stf \<and> Fin 2 = sigma_cur stf"
    by simp
  from 1 2 v demo_sweep' [of "[]" "Fin 9 / Fin 2"] demo_factorize [of "[]"] show ?thesis
    by (simp add: demo_fields)
qed

subsection \<open>Nonnegative output\<close>

lemma update_nonneg:
  "update e p v iter st = Some st' \<Longrightarrow> nonneg_chain st \<Longrightarrow> nonneg_chain st'"
  by (auto simp: update_def dest: sweep_n_nonneg)

lemma one_run_nonneg:
  assumes "one_run e p v fs = Some (Some fs')" and "seeds_nonneg e"
  shows "nonneg_chain (chain fs')"
proof -
  obtain W0 H0 g1 where i: "initialize e (rng (chain fs)) (V p) (rank p) (options p) = ((W0, H0), g1)"
    by (metis prod.exhaust)
  define st0 where "st0 = (chain fs)\<lparr>W := W0, H := H0, rng := g1, sweeps := 0\<rparr>"
  from assms(2) i have n0: "nonneg_chain st0"
    unfolding seeds_nonneg_def nonneg_chain_def st0_def
    by (metis chain.select_convs(1,2) chain.surjective chain.update_convs(1,2,4,5) fst_conv snd_conv)
  from assms(1) i obtain cobj iter st where
    r: "run_loop e p v (objective p st0, objective p st0, 0, st0) = Some (Some (cobj, iter, st))"
    and fs': "chain fs' = st"
    by (auto simp: one_run_def Let_def st0_def split: option.splits)
  from run_loop_inv [OF r, where Inv = "\<lambda>it s. nonneg_chain s"] n0 update_nonneg
  have "nonneg_chain st" by blast
  with fs' show ?thesis by simp
qed

lemma run_all_nonneg:
  "run_all e p v n fs = Some (Some fs') \<Longrightarrow> seeds_nonneg e \<Longrightarrow>
   (last fs \<noteq> None \<longrightarrow> nonneg_chain (chain fs)) \<Longrightarrow>
   (last fs' \<noteq> None \<longrightarrow> nonneg_chain (chain fs'))"
proof (induction n arbitrary: fs)
  case 0
  then show ?case by simp
next
  case (Suc n)
  then obtain fs1 where 1: "one_run e p v fs = Some (Some fs1)"
    "run_all e p v n fs1 = Some (Some fs')"
    by (auto split: option.splits)
  from one_run_nonneg [OF 1(1) Suc.prems(2)] Suc.IH [OF 1(2) Suc.prems(2)]
  show ?case by simp
qed

lemma factorize_nonneg:
  assumes "factorize e g j = Some (Some ft)" and "seeds_nonneg e"
  shows "nonneg_mat (fit_W ft) \<and> nonneg_mat (fit_H ft)"
proof -
  define fs0 where "fs0 = \<lparr> chain = \<lparr> W = [], H = [], sigma_cur = sigma (set_params j), rng = g, sweeps = 0 \<rparr>,
                  last = None, tracker = [] \<rparr>"
  from assms(1) obtain fs cobj iter where
    r: "run_all e (set_params j) (self_v (V (set_params j))) (n_run (set_params j)) fs0 = Some (Some fs)"
    and l: "last fs = Some (cobj, iter)" and ft: "fit_W ft = W (chain fs)" "fit_H ft = H (chain fs)"
    by (auto simp: factorize_def Let_def fs0_def split: option.splits)
  from run_all_nonneg [OF r assms(2)] l have "nonneg_chain (chain fs)" by (simp add: fs0_def)
  with ft show ?thesis by (simp add: nonneg_chain_def)
qed

lemma stub_seeds_nonneg: "seeds_nonneg stub_env"
  by (simp add: seeds_nonneg_def stub_env_def nonneg_mat_def)

text \<open>
  Claim C4. The vector the sampler returns is its vector of candidate values with every
  candidate that is NaN, negative or infinite replaced by exactly 0, so all its entries
  are finite, nonnegative numbers. Consequently, when the seeder returns finite nonnegative
  matrices, the \<open>W\<close> and \<open>H\<close> of the fitted model that \<^verbatim>\<open>factorize\<close> returns have no
  negative entry, no NaN and no infinity.
\<close>

theorem sampler_output_clamped:
  "(randr e g m s l = Some (x, g') \<longrightarrow>
      x = map clamp0 (randr_draw e m s l (fst (rand_n e g (length m))))
      \<and> length x = length m
      \<and> list_all nonneg_fin x)
   \<and> (seeds_nonneg e \<and> factorize e g0 j = Some (Some ft) \<longrightarrow>
        nonneg_mat (fit_W ft) \<and> nonneg_mat (fit_H ft))"
  using randr_result(1) [of e g m s l x g'] randr_nonneg [of e g m s l x g']
    factorize_nonneg [of e g0 j ft]
  by (auto simp: length_randr_draw)

theorem sampler_output_clamped_witness:
  "randr stub_env 0 [Fin 2, Fin (- 200)] (Fin 2) [Fin 0, Fin 0]
     = Some ([Fin 3, Fin (- (ln (1 / 2) / 100))], 2)
   \<and> list_all nonneg_fin [Fin 3, Fin (- (ln (1 / 2) / 100))]
   \<and> seeds_nonneg stub_env
   \<and> factorize stub_env 0 (demo_job [] True)
      = Some (Some \<lparr> fit_W = [[Fin 1, Fin 3]], fit_H = [[Fin 1], [Fin (1 / 3)]], fit_sigma = Fin 2,
        n_iter = 0, final_obj = Fin 1, fit_tracker = None, fit_sweeps = 1, fit_rng = 2 \<rparr>)
   \<and> nonneg_mat [[Fin 1, Fin 3]] \<and> nonneg_mat [[Fin 1], [Fin (1 / 3)]]"
proof -
  note t = sampler_output_clamped [of stub_env 0 "[Fin 2, Fin (- 200)]" "Fin 2" "[Fin 0, Fin 0]"
      "[Fin 3, Fin (- (ln (1 / 2) / 100))]" 2 0 "demo_job [] True"
      "\<lparr> fit_W = [[Fin 1, Fin 3]], fit_H = [[Fin 1], [Fin (1 / 3)]], fit_sigma = Fin 2,
        n_iter = 0, final_obj = Fin 1, fit_tracker = None, fit_sweeps = 1, fit_rng = 2 \<rparr>"]
  from t [THEN conjunct1] demo_randr2
  have 1: "list_all nonneg_fin [Fin 3, Fin (- (ln (1 / 2) / 100))]" by blast
  from t [THEN conjunct2] stub_seeds_nonneg demo_factorize [of "[]"]
  have 2: "nonneg_mat [[Fin 1, Fin 3]] \<and> nonneg_mat [[Fin 1], [Fin (1 / 3)]]" by simp
  from 1 2 demo_randr2 stub_seeds_nonneg demo_factorize [of "[]"] show ?thesis by blast
qed

lemma clamp0_values:
  "clamp0 NaN = Fin 0" "clamp0 PInf = Fin 0" "clamp0 NInf = Fin 0"
  "clamp0 (Fin r) = (if r < 0 then Fin 0 else Fin r)"
  by (simp_all add: clamp0_def fl_arith)

subsection \<open>Shapes of the priors and masks\<close>

lemma w_loop_short_mask:
  "n \<in> set ns \<Longrightarrow> idx (n_w p) n = None \<Longrightarrow> w_loop e p C D ns st = None"
proof (induction ns arbitrary: st)
  case Nil
  then show ?case by simp
next
  case (Cons a ns)
  show ?case
  proof (cases "w_step e p C D a st")
    case None
    then show ?thesis by simp
  next
    case (Some st1)
    with Cons.prems have "a \<noteq> n" by (auto simp: w_step_def)
    with Cons Some show ?thesis by simp
  qed
qed

lemma h_loop_short_mask:
  "n \<in> set ns \<Longrightarrow> idx (n_h p) n = None \<Longrightarrow> h_loop e p E F ns st = None"
proof (induction ns arbitrary: st)
  case Nil
  then show ?case by simp
next
  case (Cons a ns)
  show ?case
  proof (cases "h_step e p E F a st")
    case None
    then show ?thesis by simp
  next
    case (Some st1)
    with Cons.prems have "a \<noteq> n" by (auto simp: h_step_def)
    with Cons Some show ?thesis by simp
  qed
qed

lemma sweep_short_mask:
  assumes "length (n_w p) < rank p \<or> length (n_h p) < rank p"
  shows "sweep e p v st = None"
proof -
  from assms consider (w) "length (n_w p) < rank p" | (h) "length (n_h p) < rank p" by blast
  then show ?thesis
  proof cases
    case w
    then have "length (n_w p) \<in> set [0..<rank p]" "idx (n_w p) (length (n_w p)) = None"
      by (simp_all add: idx_def)
    from w_loop_short_mask [OF this]
    have "w_loop e p (dot (H st) (tr (H st))) (dot (V p) (tr (H st))) [0..<rank p] st = None" .
    then show ?thesis by (simp add: sweep_def Let_def)
  next
    case h
    then have "length (n_h p) \<in> set [0..<rank p]" "idx (n_h p) (length (n_h p)) = None"
      by (simp_all add: idx_def)
    from h_loop_short_mask [OF this]
    have "h_loop e p E F [0..<rank p] st2 = None" for E F st2 .
    then show ?thesis by (auto simp: sweep_def Let_def split: bind_splits)
  qed
qed

lemma idx_append: "n < length xs \<Longrightarrow> idx (xs @ ys) n = idx xs n"
  by (simp add: idx_def nth_append)

lemma w_step_long_mask:
  "n < length (n_w p) \<Longrightarrow>
   w_step e (p\<lparr>n_w := n_w p @ xw, n_h := n_h p @ xh\<rparr>) C D n st = w_step e p C D n st"
  by (simp add: w_step_def idx_append cong: if_cong)

lemma h_step_long_mask:
  "n < length (n_h p) \<Longrightarrow>
   h_step e (p\<lparr>n_w := n_w p @ xw, n_h := n_h p @ xh\<rparr>) E F n st = h_step e p E F n st"
  by (simp add: h_step_def idx_append cong: if_cong)

lemma w_loop_long_mask:
  "\<forall>n \<in> set ns. n < length (n_w p) \<Longrightarrow>
   w_loop e (p\<lparr>n_w := n_w p @ xw, n_h := n_h p @ xh\<rparr>) C D ns st = w_loop e p C D ns st"
  by (induction ns arbitrary: st) (simp_all add: w_step_long_mask)

lemma h_loop_long_mask:
  "\<forall>n \<in> set ns. n < length (n_h p) \<Longrightarrow>
   h_loop e (p\<lparr>n_w := n_w p @ xw, n_h := n_h p @ xh\<rparr>) E F ns st = h_loop e p E F ns st"
  by (induction ns arbitrary: st) (simp_all add: h_step_long_mask)

lemma sweep_long_mask:
  assumes "rank p \<le> length (n_w p)" "rank p \<le> length (n_h p)"
  shows "sweep e (p\<lparr>n_w := n_w p @ xw, n_h := n_h p @ xh\<rparr>) v st = sweep e p v st"
proof -
  have w: "\<forall>n \<in> set [0..<rank p]. n < length (n_w p)" using assms by simp
  have h: "\<forall>n \<in> set [0..<rank p]. n < length (n_h p)" using assms by simp
  show ?thesis
    by (simp add: sweep_def Let_def w_loop_long_mask [OF w] h_loop_long_mask [OF h]
        sigma_step_def gamma_shape_def gamma_scale_def cong: if_cong)
qed

text \<open>
  Claim C3 says that priors and masks of the wrong shape are detected before the first sweep
  and reported as an invalid configuration. In the worked instance with a mask \<open>n_w\<close> of
  three entries for rank 2, \<^verbatim>\<open>factorize\<close> returns a fitted model.
\<close>

theorem shapes_counterexample:
  "\<not> shapes_ok (set_params (demo_job [True] True))
   \<and> factorize stub_env 0 (demo_job [True] True)
      = Some (Some \<lparr> fit_W = [[Fin 1, Fin 3]], fit_H = [[Fin 1], [Fin (1 / 3)]], fit_sigma = Fin 2,
        n_iter = 0, final_obj = Fin 1, fit_tracker = None, fit_sweeps = 1, fit_rng = 2 \<rparr>)"
  by (simp add: shapes_ok_def demo_fields demo_factorize)

text \<open>
  Claim C3, amended. \<^verbatim>\<open>_set_params\<close> stores \<open>alpha\<close>, \<open>beta\<close>, \<open>n_w\<close> and \<open>n_h\<close> as the caller
  supplied them, whatever their shapes, and reports no failure. A mask with fewer than
  \<open>rank\<close> entries makes every sweep raise; the entries of a mask beyond \<open>rank\<close> are never
  read, so a sweep with longer masks is the sweep with the masks cut to their first
  entries.
\<close>

theorem set_params_unchecked:
  "(opt_alpha (options j) = Some a \<longrightarrow> alpha (set_params j) = a)
   \<and> (opt_beta (options j) = Some b \<longrightarrow> beta (set_params j) = b)
   \<and> (opt_n_w (options j) = Some nw \<longrightarrow> n_w (set_params j) = nw)
   \<and> (opt_n_h (options j) = Some nh \<longrightarrow> n_h (set_params j) = nh)
   \<and> (length (n_w p) < rank p \<or> length (n_h p) < rank p \<longrightarrow> sweep e p v st = None)
   \<and> (rank q \<le> length (n_w q) \<and> rank q \<le> length (n_h q) \<longrightarrow>
        sweep e (q\<lparr>n_w := n_w q @ xw, n_h := n_h q @ xh\<rparr>) v st = sweep e q v st)"
  using sweep_short_mask [of p e v st]
    sweep_long_mask [where p = q and e = e and xw = xw and xh = xh and v = v and st = st]
  by (simp add: set_params_def get_or_def)

theorem set_params_unchecked_witness:
  "n_w (set_params (demo_job [True] True)) = [True, False, True]
   \<and> n_h (set_params (demo_job [True] True)) = [True, False]
   \<and> alpha (set_params ((demo_job [] True)\<lparr>options := (options (demo_job [] True))
         \<lparr>opt_alpha := Some [[Fin 0]], opt_beta := Some [[Fin 0]]\<rparr>\<rparr>)) = [[Fin 0]]
   \<and> beta (set_params ((demo_job [] True)\<lparr>options := (options (demo_job [] True))
         \<lparr>opt_alpha := Some [[Fin 0]], opt_beta := Some [[Fin 0]]\<rparr>\<rparr>)) = [[Fin 0]]
   \<and> sweep stub_env ((set_params (demo_job [] True))\<lparr>n_w := [True]\<rparr>) (Fin 1)
        \<lparr>W = [[Fin 1, Fin 1]], H = [[Fin 1], [Fin 1]], sigma_cur = Fin 2, rng = 0, sweeps = 0\<rparr> = None
   \<and> sweep stub_env ((set_params (demo_job [] True))\<lparr>n_w := [True, False] @ [True],
                                                  n_h := [True, False] @ [False]\<rparr>) (Fin 1)
        \<lparr>W = [[Fin 1, Fin 1]], H = [[Fin 1], [Fin 1]], sigma_cur = Fin 2, rng = 0, sweeps = 0\<rparr>
      = Some \<lparr>W = [[Fin 1, Fin 3]], H = [[Fin 1], [Fin (1 / 3)]], sigma_cur = Fin 2, rng = 2, sweeps = 1\<rparr>"
proof -
  let ?j = "(demo_job [] True)\<lparr>options := (options (demo_job [] True))
         \<lparr>opt_alpha := Some [[Fin 0]], opt_beta := Some [[Fin 0]],
           opt_n_w := Some [True, False, True], opt_n_h := Some [True, False]\<rparr>\<rparr>"
  let ?st = "\<lparr>W = [[Fin 1, Fin 1]], H = [[Fin 1], [Fin 1]], sigma_cur = Fin 2, rng = 0::nat, sweeps = 0\<rparr>"
  note t = set_params_unchecked [where j = ?j and a = "[[Fin 0]]" and b = "[[Fin 0]]"
      and nw = "[True, False, True]" and nh = "[True, False]"
      and p = "(set_params (demo_job [] True))\<lparr>n_w := [True]\<rparr>" and e = stub_env
      and v = "Fin 1" and st = ?st and q = "set_params (demo_job [] True)"
      and xw = "[True]" and xh = "[False]"]
  from t have 1: "alpha (set_params ?j) = [[Fin 0]]" "beta (set_params ?j) = [[Fin 0]]"
    "n_w (set_params ?j) = [True, False, True]" "n_h (set_params ?j) = [True, False]"
    by (simp_all add: demo_job_def)
  have 2: "alpha (set_params ((demo_job [] True)\<lparr>options := (options (demo_job [] True))
         \<lparr>opt_alpha := Some [[Fin 0]], opt_beta := Some [[Fin 0]]\<rparr>\<rparr>)) = alpha (set_params ?j)"
     "beta (set_params ((demo_job [] True)\<lparr>options := (options (demo_job [] True))
         \<lparr>opt_alpha := Some [[Fin 0]], opt_beta := Some [[Fin 0]]\<rparr>\<rparr>)) = beta (set_params ?j)"
     "n_w (set_params (demo_job [True] True)) = n_w (set_params ?j)"
     "n_h (set_params (demo_job [True] True)) = n_h (set_params ?j)"
    by (simp_all add: set_params_def demo_job_def)
  from t have 3: "sweep stub_env ((set_params (demo_job [] True))\<lparr>n_w := [True]\<rparr>) (Fin 1) ?st = None"
    by (simp add: demo_fields)
  from t have 4: "sweep stub_env ((set_params (demo_job [] True))\<lparr>n_w := [True, False] @ [True],
                                                  n_h := [True, False] @ [False]\<rparr>) (Fin 1) ?st
      = sweep stub_env (set_params (demo_job [] True)) (Fin 1) ?st"
    by (simp add: demo_fields)
  from 1 2 3 4 demo_sweep [of "[]" "Fin 1"] show ?thesis by simp
qed

end
